theory Spec2Isabelle
  imports Complex_Main "HOL-Library.Char_ord" "HOL-Library.List_Lexorder" "HOL-Library.Log_Nat"
begin

text \<open>
  A model of the calculation pipeline of \<open>suspension_analyzer.py\<close>: the damper length
  calculation (lines 459--653), the ranking (lines 655--664 and their per-sheet copies),
  the single-sheet roll-up of the rear rank (lines 1007--1018) and the line-up optimizer
  of the Selector tab (lines 1556--1723).

  Data frames are lists of rows and a column is the list of its cells. Cells are numeric:
  coordinates, offsets and damper lengths are taken in \<open>real\<close>, so rounding in the
  geometry and missing cells are outside the model (with every cell present the
  \<open>dropna\<close> of line 653 removes no row). The corner weights, their total and the scores
  of the optimizer are double precision numbers, and their arithmetic is modelled with
  its rounding, since the optimizer and the weight check compare its results. Identifiers of clips are
  strings: the dual-sheet calculation concatenates them with \<open>' / '\<close> (line 595).
  An empty cell is read as a missing value, so the theorems about the optimizer take the
  identifiers to be non-empty where Python's truth test of a clip matters.
  Center sections are of any linearly ordered type, since they are only compared and sorted.
\<close>

section \<open>Data model\<close>

datatype corner = LF | RF | LR | RR

text \<open>The nine coordinate columns that the configuration maps to one corner.\<close>

record corner_pts =
  upper_x :: real
  upper_y :: real
  upper_z :: real
  lca_front_x :: real
  lca_front_y :: real
  lca_front_z :: real
  lca_rear_x :: real
  lca_rear_y :: real
  lca_rear_z :: real

text \<open>One row of a sheet, read through the column mapping.\<close>

record 's sheet_row =
  center_section :: 's
  clip :: string
  lf :: corner_pts
  rf :: corner_pts
  lr :: corner_pts
  rr :: corner_pts

record config =
  lf_y_offset :: real
  rf_y_offset :: real
  lr_y_offset :: real
  rr_y_offset :: real
  normalize_lca_z :: bool

fun pts :: "corner \<Rightarrow> 's sheet_row \<Rightarrow> corner_pts" where
  "pts LF r = lf r"
| "pts RF r = rf r"
| "pts LR r = lr r"
| "pts RR r = rr r"

fun y_offset :: "config \<Rightarrow> corner \<Rightarrow> real" where
  "y_offset cfg LF = lf_y_offset cfg"
| "y_offset cfg RF = rf_y_offset cfg"
| "y_offset cfg LR = lr_y_offset cfg"
| "y_offset cfg RR = rr_y_offset cfg"

section \<open>Damper length calculation\<close>

definition calc_distance :: "real \<Rightarrow> real \<Rightarrow> real \<Rightarrow> real \<Rightarrow> real \<Rightarrow> real \<Rightarrow> real" where
  "calc_distance x1 y1 z1 x2 y2 z2 = sqrt ((x2 - x1)\<^sup>2 + (y2 - y1)\<^sup>2 + (z2 - z1)\<^sup>2)"

text \<open>The columns \<open>(df[c_lca_front_x] + df[c_lca_rear_x]) / 2\<close> and their y and z copies.\<close>

definition lca_center_x :: "corner \<Rightarrow> 's sheet_row list \<Rightarrow> real list" where
  "lca_center_x c df = map (\<lambda>r. (lca_front_x (pts c r) + lca_rear_x (pts c r)) / 2) df"

definition lca_center_y :: "corner \<Rightarrow> 's sheet_row list \<Rightarrow> real list" where
  "lca_center_y c df = map (\<lambda>r. (lca_front_y (pts c r) + lca_rear_y (pts c r)) / 2) df"

definition lca_center_z :: "corner \<Rightarrow> 's sheet_row list \<Rightarrow> real list" where
  "lca_center_z c df = map (\<lambda>r. (lca_front_z (pts c r) + lca_rear_z (pts c r)) / 2) df"

text \<open>
  \<open>c_lower_y = c_lca_center_y - np.abs(c_y_offset)\<close> for LF and LR,
  \<open>+ np.abs(c_y_offset)\<close> for RF and RR.
\<close>

fun lower_y :: "corner \<Rightarrow> real list \<Rightarrow> real \<Rightarrow> real list" where
  "lower_y LF center_y off = map (\<lambda>y. y - \<bar>off\<bar>) center_y"
| "lower_y RF center_y off = map (\<lambda>y. y + \<bar>off\<bar>) center_y"
| "lower_y LR center_y off = map (\<lambda>y. y - \<bar>off\<bar>) center_y"
| "lower_y RR center_y off = map (\<lambda>y. y + \<bar>off\<bar>) center_y"

text \<open>The lower mount of every row of a frame, from the three centre columns of a corner.\<close>

definition lower_mount ::
  "config \<Rightarrow> corner \<Rightarrow> real list \<Rightarrow> real list \<Rightarrow> real list \<Rightarrow> (real \<times> real \<times> real) list" where
  "lower_mount cfg c center_x center_y center_z =
     (let lower_x = center_x;
          lower_y = lower_y c center_y (y_offset cfg c);
          lower_z = center_z
      in zip lower_x (zip lower_y lower_z))"

definition damper_length :: "corner \<Rightarrow> 's sheet_row list \<Rightarrow> (real \<times> real \<times> real) list \<Rightarrow> real list" where
  "damper_length c df lower =
     map (\<lambda>(r, lower_x, lower_y, lower_z).
            calc_distance (upper_x (pts c r)) (upper_y (pts c r)) (upper_z (pts c r))
                          lower_x lower_y lower_z)
         (zip df lower)"

subsection \<open>Median of the centre heights\<close>

text \<open>
  \<open>Series.median\<close>: the middle value of the sorted column, the mean of the two middle
  values when their number is even, and NaN (here \<open>None\<close>) for an empty column.
\<close>

definition median :: "real list \<Rightarrow> real option" where
  "median xs =
     (let n = length xs; srt = sort xs
      in if n = 0 then None
         else if odd n then Some (srt ! (n div 2))
         else Some ((srt ! (n div 2 - 1) + srt ! (n div 2)) / 2))"

subsection \<open>Dual-sheet mode (lines 460--598)\<close>

text \<open>LF and RF are read from the front sheet, LR and RR from the rear sheet.\<close>

fun sheet_of :: "corner \<Rightarrow> 's sheet_row list \<Rightarrow> 's sheet_row list \<Rightarrow> 's sheet_row list" where
  "sheet_of LF df_front df_rear = df_front"
| "sheet_of RF df_front df_rear = df_front"
| "sheet_of LR df_front df_rear = df_rear"
| "sheet_of RR df_front df_rear = df_rear"

definition all_z_heights :: "'s sheet_row list \<Rightarrow> 's sheet_row list \<Rightarrow> real list" where
  "all_z_heights df_front df_rear =
     lca_center_z LF df_front @ lca_center_z RF df_front @
     lca_center_z LR df_rear @ lca_center_z RR df_rear"

text \<open>
  The centre heights after the block of lines 482--494: with the flag set each of the four
  columns becomes \<open>[median_z] * len(column)\<close>. The median is NaN only when both sheets
  are empty, and then the four columns are empty as well.
\<close>

definition multi_lca_center_z ::
  "config \<Rightarrow> 's sheet_row list \<Rightarrow> 's sheet_row list \<Rightarrow> corner \<Rightarrow> real list" where
  "multi_lca_center_z cfg df_front df_rear c =
     (let z = lca_center_z c (sheet_of c df_front df_rear)
      in if normalize_lca_z cfg then
           (case median (all_z_heights df_front df_rear) of
              Some median_z \<Rightarrow> replicate (length z) median_z
            | None \<Rightarrow> z)
         else z)"

definition multi_lower_mount ::
  "config \<Rightarrow> 's sheet_row list \<Rightarrow> 's sheet_row list \<Rightarrow> corner \<Rightarrow> (real \<times> real \<times> real) list" where
  "multi_lower_mount cfg df_front df_rear c =
     (let df = sheet_of c df_front df_rear
      in lower_mount cfg c (lca_center_x c df) (lca_center_y c df)
           (multi_lca_center_z cfg df_front df_rear c))"

definition multi_damper_length ::
  "config \<Rightarrow> 's sheet_row list \<Rightarrow> 's sheet_row list \<Rightarrow> corner \<Rightarrow> real list" where
  "multi_damper_length cfg df_front df_rear c =
     damper_length c (sheet_of c df_front df_rear) (multi_lower_mount cfg df_front df_rear c)"

subsection \<open>Single-sheet mode (lines 600--650)\<close>

text \<open>The single-sheet branch does not read \<open>normalize_lca_z\<close>.\<close>

definition single_lca_center_z :: "config \<Rightarrow> 's sheet_row list \<Rightarrow> corner \<Rightarrow> real list" where
  "single_lca_center_z cfg df c = lca_center_z c df"

definition single_lower_mount ::
  "config \<Rightarrow> 's sheet_row list \<Rightarrow> corner \<Rightarrow> (real \<times> real \<times> real) list" where
  "single_lower_mount cfg df c =
     lower_mount cfg c (lca_center_x c df) (lca_center_y c df) (single_lca_center_z cfg df c)"

definition single_damper_length :: "config \<Rightarrow> 's sheet_row list \<Rightarrow> corner \<Rightarrow> real list" where
  "single_damper_length cfg df c = damper_length c df (single_lower_mount cfg df c)"

section \<open>Ranking (pandas \<open>Series.rank(method='min')\<close>)\<close>

text \<open>
  \<open>Series.rank\<close> sorts the column and gives every value the position (counted from 1)
  of the first member of its tie group in the sorted order; \<open>ascending=False\<close> sorts
  from the largest value down. The result is cast with \<open>astype(int)\<close>.
\<close>

definition first_pos :: "'a \<Rightarrow> 'a list \<Rightarrow> nat" where
  "first_pos x ys = length (takeWhile (\<lambda>y. y \<noteq> x) ys)"

definition rank_min :: "bool \<Rightarrow> 'a::linorder list \<Rightarrow> nat list" where
  "rank_min ascending xs =
     (let srt = (if ascending then sort xs else rev (sort xs))
      in map (\<lambda>x. Suc (first_pos x srt)) xs)"


section \<open>Frames of the calculation\<close>

text \<open>
  \<open>df_front_calc\<close> and \<open>df_rear_calc\<close>: a sheet with its two damper length columns.
  Only the columns that the later stages read are kept (lines 574 and 577 project the
  same four): the columns named by \<open>center_section_col\<close> and \<open>clip_col\<close> and the
  two lengths. The field names carry the sheet as a prefix.
\<close>

record 's front_calc =
  front_center_section_col :: 's
  front_clip_col :: string
  front_LF_Damper_Length :: real
  front_RF_Damper_Length :: real

record 's rear_calc =
  rear_center_section_col :: 's
  rear_clip_col :: string
  rear_LR_Damper_Length :: real
  rear_RR_Damper_Length :: real

text \<open>
  A row of \<open>results_df\<close>: in single-sheet mode it has the clip column of the sheet, in
  dual-sheet mode the columns \<open>Front_Clip\<close> and \<open>Rear_Clip\<close> of the merge (and
  \<open>Clip_Combination\<close>, which is \<open>Front_Clip + ' / ' + Rear_Clip\<close>).
\<close>

datatype clip_cols = Clip string | Front_Rear_Clip string string

fun Clip_Combination :: "clip_cols \<Rightarrow> string option" where
  "Clip_Combination (Clip c) = None"
| "Clip_Combination (Front_Rear_Clip f r) = Some (f @ '' / '' @ r)"

record 's result_row =
  res_center :: 's
  res_clip :: clip_cols
  LF_Damper_Length :: real
  RF_Damper_Length :: real
  LR_Damper_Length :: real
  RR_Damper_Length :: real

record 's ranked_row = "'s result_row" +
  LF_Rank :: nat
  RF_Rank :: nat
  LR_Rank :: nat
  RR_Rank :: nat
  Front_Weighted_Score :: nat
  Front_Rank :: nat

definition multi_front_calc ::
  "config \<Rightarrow> 's sheet_row list \<Rightarrow> 's sheet_row list \<Rightarrow> 's front_calc list" where
  "multi_front_calc cfg df_front df_rear =
     map (\<lambda>(r, lf_len, rf_len).
            \<lparr>front_center_section_col = center_section r, front_clip_col = clip r,
             front_LF_Damper_Length = lf_len, front_RF_Damper_Length = rf_len\<rparr>)
         (zip df_front (zip (multi_damper_length cfg df_front df_rear LF)
                            (multi_damper_length cfg df_front df_rear RF)))"

definition multi_rear_calc ::
  "config \<Rightarrow> 's sheet_row list \<Rightarrow> 's sheet_row list \<Rightarrow> 's rear_calc list" where
  "multi_rear_calc cfg df_front df_rear =
     map (\<lambda>(r, lr_len, rr_len).
            \<lparr>rear_center_section_col = center_section r, rear_clip_col = clip r,
             rear_LR_Damper_Length = lr_len, rear_RR_Damper_Length = rr_len\<rparr>)
         (zip df_rear (zip (multi_damper_length cfg df_front df_rear LR)
                           (multi_damper_length cfg df_front df_rear RR)))"

text \<open>
  \<open>pd.merge(df_front_renamed, df_rear_renamed, on=[center_section_col], how='inner')\<close>:
  every front row with every rear row of the same center section.
\<close>

definition merge_inner :: "'s front_calc list \<Rightarrow> 's rear_calc list \<Rightarrow> 's result_row list" where
  "merge_inner df_front_renamed df_rear_renamed =
     concat (map (\<lambda>f. map (\<lambda>r.
          \<lparr>res_center = front_center_section_col f,
           res_clip = Front_Rear_Clip (front_clip_col f) (rear_clip_col r),
           LF_Damper_Length = front_LF_Damper_Length f,
           RF_Damper_Length = front_RF_Damper_Length f,
           LR_Damper_Length = rear_LR_Damper_Length r,
           RR_Damper_Length = rear_RR_Damper_Length r\<rparr>)
        (filter (\<lambda>r. rear_center_section_col r = front_center_section_col f) df_rear_renamed)) df_front_renamed)"

definition single_results :: "config \<Rightarrow> 's sheet_row list \<Rightarrow> 's result_row list" where
  "single_results cfg df =
     map (\<lambda>(r, lf_len, rf_len, lr_len, rr_len).
            \<lparr>res_center = center_section r, res_clip = Clip (clip r),
             LF_Damper_Length = lf_len, RF_Damper_Length = rf_len,
             LR_Damper_Length = lr_len, RR_Damper_Length = rr_len\<rparr>)
         (zip df (zip (single_damper_length cfg df LF) (zip (single_damper_length cfg df RF)
            (zip (single_damper_length cfg df LR) (single_damper_length cfg df RR)))))"

section \<open>Ranking of the working set (lines 655--664)\<close>

text \<open>
  The four corner ranks (largest damper length first), the weighted front score
  \<open>LF_Rank * 2 + RF_Rank * 1\<close> and its rank (smallest score first).
\<close>

definition add_ranks :: "'s result_row list \<Rightarrow> 's ranked_row list" where
  "add_ranks df =
     (let lf_rank = rank_min False (map LF_Damper_Length df);
          rf_rank = rank_min False (map RF_Damper_Length df);
          lr_rank = rank_min False (map LR_Damper_Length df);
          rr_rank = rank_min False (map RR_Damper_Length df);
          front_weighted_score = map (\<lambda>(l, r). l * 2 + r * 1) (zip lf_rank rf_rank);
          front_rank = rank_min True front_weighted_score
      in map (\<lambda>i. \<lparr>res_center = res_center (df ! i), res_clip = res_clip (df ! i),
                    LF_Damper_Length = LF_Damper_Length (df ! i),
                    RF_Damper_Length = RF_Damper_Length (df ! i),
                    LR_Damper_Length = LR_Damper_Length (df ! i),
                    RR_Damper_Length = RR_Damper_Length (df ! i),
                    LF_Rank = lf_rank ! i, RF_Rank = rf_rank ! i,
                    LR_Rank = lr_rank ! i, RR_Rank = rr_rank ! i,
                    Front_Weighted_Score = front_weighted_score ! i,
                    Front_Rank = front_rank ! i\<rparr>)
             [0..<length df])"

section \<open>Ranking within each sheet (lines 1567--1575)\<close>

text \<open>
  In dual-sheet mode the front and the rear sheet are ranked on their own:
  \<open>df_front_calc_ranks\<close> and \<open>df_rear_calc_ranks\<close>. The same four lines are repeated at
  lines 711--714, 839--842 and 971--979.
\<close>

record 's front_calc_ranks = "'s front_calc" +
  front_LF_Rank :: nat
  front_RF_Rank :: nat
  front_Front_Weighted_Score :: nat
  front_Front_Rank :: nat

record 's rear_calc_ranks = "'s rear_calc" +
  rear_LR_Rank :: nat
  rear_RR_Rank :: nat
  rear_Rear_Weighted_Score :: nat
  rear_Rear_Rank :: nat

definition add_front_ranks :: "'s front_calc list \<Rightarrow> 's front_calc_ranks list" where
  "add_front_ranks df =
     (let lf_rank = rank_min False (map front_LF_Damper_Length df);
          rf_rank = rank_min False (map front_RF_Damper_Length df);
          front_weighted_score = map (\<lambda>(l, r). l * 2 + r * 1) (zip lf_rank rf_rank);
          front_rank = rank_min True front_weighted_score
      in map (\<lambda>i. \<lparr>front_center_section_col = front_center_section_col (df ! i),
                    front_clip_col = front_clip_col (df ! i),
                    front_LF_Damper_Length = front_LF_Damper_Length (df ! i),
                    front_RF_Damper_Length = front_RF_Damper_Length (df ! i),
                    front_LF_Rank = lf_rank ! i, front_RF_Rank = rf_rank ! i,
                    front_Front_Weighted_Score = front_weighted_score ! i,
                    front_Front_Rank = front_rank ! i\<rparr>)
             [0..<length df])"

definition add_rear_ranks :: "'s rear_calc list \<Rightarrow> 's rear_calc_ranks list" where
  "add_rear_ranks df =
     (let lr_rank = rank_min False (map rear_LR_Damper_Length df);
          rr_rank = rank_min False (map rear_RR_Damper_Length df);
          rear_weighted_score = map (\<lambda>(l, r). l * 2 + r * 1) (zip lr_rank rr_rank);
          rear_rank = rank_min True rear_weighted_score
      in map (\<lambda>i. \<lparr>rear_center_section_col = rear_center_section_col (df ! i),
                    rear_clip_col = rear_clip_col (df ! i),
                    rear_LR_Damper_Length = rear_LR_Damper_Length (df ! i),
                    rear_RR_Damper_Length = rear_RR_Damper_Length (df ! i),
                    rear_LR_Rank = lr_rank ! i, rear_RR_Rank = rr_rank ! i,
                    rear_Rear_Weighted_Score = rear_weighted_score ! i,
                    rear_Rear_Rank = rear_rank ! i\<rparr>)
             [0..<length df])"

section \<open>Roll-up by center section in single-sheet mode (lines 1007--1018)\<close>

text \<open>
  \<open>results_df.groupby(center_section_col).agg(... 'mean')\<close> followed by
  \<open>Rear_Rank = (LR_Rank + RR_Rank) / 2\<close>; the groups come in sorted key order and
  none is empty.
\<close>

definition unique :: "'a list \<Rightarrow> 'a list" where
  \<comment> \<open>the distinct values in order of first appearance\<close>
  "unique xs = rev (remdups (rev xs))"

definition mean :: "real list \<Rightarrow> real" where
  "mean xs = sum_list xs / real (length xs)"

record 's center_ranking =
  group_center :: 's
  mean_LF_Rank :: real
  mean_RF_Rank :: real
  mean_LR_Rank :: real
  mean_RR_Rank :: real
  mean_Front_Rank :: real
  mean_LF_Damper_Length :: real
  mean_RF_Damper_Length :: real
  mean_LR_Damper_Length :: real
  mean_RR_Damper_Length :: real
  single_Rear_Rank :: real

definition single_center_rankings :: "'s::linorder ranked_row list \<Rightarrow> 's center_ranking list" where
  "single_center_rankings results_df =
     map (\<lambda>cs. let g = filter (\<lambda>r. res_center r = cs) results_df;
                   lr = mean (map (\<lambda>r. real (LR_Rank r)) g);
                   rr = mean (map (\<lambda>r. real (RR_Rank r)) g)
               in \<lparr>group_center = cs,
                   mean_LF_Rank = mean (map (\<lambda>r. real (LF_Rank r)) g),
                   mean_RF_Rank = mean (map (\<lambda>r. real (RF_Rank r)) g),
                   mean_LR_Rank = lr,
                   mean_RR_Rank = rr,
                   mean_Front_Rank = mean (map (\<lambda>r. real (Front_Rank r)) g),
                   mean_LF_Damper_Length = mean (map LF_Damper_Length g),
                   mean_RF_Damper_Length = mean (map RF_Damper_Length g),
                   mean_LR_Damper_Length = mean (map LR_Damper_Length g),
                   mean_RR_Damper_Length = mean (map RR_Damper_Length g),
                   single_Rear_Rank = (lr + rr) / 2\<rparr>)
         (sort (unique (map res_center results_df)))"

section \<open>Double precision arithmetic\<close>

text \<open>
  A Python \<open>float\<close> is an IEEE 754 binary64 number; the finite ones are rationals. Each
  operation returns the exact result rounded to the nearest double, to the one with an
  even significand when two are equally near. \<open>fl\<close> is that rounding: a double is an
  integer of at most 53 bits times a power of two with exponent at least \<open>- 1074\<close>.
  Results beyond the largest double are not reached here: the weights lie between 0 and
  100 and the ranks are row counts.
\<close>

definition pow2 :: "int \<Rightarrow> rat" where
  "pow2 e = (if 0 \<le> e then 2 ^ nat e else 1 / 2 ^ nat (- e))"

text \<open>The integer \<open>d\<close> with \<open>pow2 d \<le> |x| < pow2 (d + 1)\<close>, for \<open>x\<close> other than 0.\<close>

definition ilog2 :: "rat \<Rightarrow> int" where
  "ilog2 x =
     (let (p, q) = quotient_of \<bar>x\<bar>;
          d = bitlen p - bitlen q
      in if pow2 d \<le> \<bar>x\<bar> then d else d - 1)"

definition round_half_even :: "rat \<Rightarrow> int" where
  "round_half_even x =
     (let f = \<lfloor>x\<rfloor>; d = x - of_int f
      in if d < 1 / 2 then f
         else if 1 / 2 < d then f + 1
         else if even f then f else f + 1)"

definition fl :: "rat \<Rightarrow> rat" where
  "fl x =
     (if x = 0 then 0
      else (let e = max (ilog2 x - 52) (- 1074)
            in of_int (round_half_even (x / pow2 e)) * pow2 e))"

definition fadd :: "rat \<Rightarrow> rat \<Rightarrow> rat" where
  "fadd a b = fl (a + b)"

definition fsub :: "rat \<Rightarrow> rat \<Rightarrow> rat" where
  "fsub a b = fl (a - b)"

definition fmul :: "rat \<Rightarrow> rat \<Rightarrow> rat" where
  "fmul a b = fl (a * b)"

definition fdiv :: "rat \<Rightarrow> rat \<Rightarrow> rat" where
  "fdiv a b = fl (a / b)"

text \<open>An integer rank in a product with a float is converted to a double first.\<close>

definition float_of_rank :: "nat \<Rightarrow> rat" where
  "float_of_rank n = fl (of_nat n)"

section \<open>The Calculate button (lines 459--671)\<close>

text \<open>
  The part of \<open>st.session_state\<close> that the calculation and the Selector tab write.
  A key that is not in the session state is \<open>None\<close>.
\<close>

record weights =
  lf_weight :: rat
  rf_weight :: rat
  lr_weight :: rat
  rr_weight :: rat

record assignment =
  front_clip :: string
  rear_clip :: string

record 's session =
  df_front_calc :: "'s front_calc list option"
  df_rear_calc :: "'s rear_calc list option"
  results_df :: "'s ranked_row list option"
  corner_weights :: "weights option"
  lineup_assignments :: "('s \<rightharpoonup> assignment) option"

datatype outcome = Completed | Stopped

text \<open>
  One run of the script with the button pressed. \<open>st.stop()\<close> ends the run; what was
  stored in the session state before it stays. Every mapped column is a field of the
  row, so the checks for missing columns of the rear sheet (lines 519--557) pass. The
  final reordering of \<open>results_df\<close> by descending LF length (line 667) permutes the rows
  and changes no cell; the frame is kept in the order of the merge here.
\<close>

definition calculate ::
  "bool \<Rightarrow> config \<Rightarrow> 's sheet_row list \<Rightarrow> 's sheet_row list \<Rightarrow> 's sheet_row list \<Rightarrow>
     's session \<Rightarrow> outcome \<times> 's session" where
  "calculate using_multi_sheet cfg df df_front df_rear st =
     (if using_multi_sheet then
        (let front = multi_front_calc cfg df_front df_rear;
             rear = multi_rear_calc cfg df_front df_rear;
             st1 = st\<lparr>df_front_calc := Some front, df_rear_calc := Some rear\<rparr>;
             merged = merge_inner front rear
         in if length merged = 0 then (Stopped, st1)
            else (Completed, st1\<lparr>results_df := Some (add_ranks merged)\<rparr>))
      else (Completed, st\<lparr>results_df := Some (add_ranks (single_results cfg df))\<rparr>))"

section \<open>The line-up optimizer (lines 1556--1670)\<close>

datatype error = IndexError | KeyError

text \<open>What \<open>calculate_optimal_assignments\<close> reads from the enclosing Selector tab.\<close>

record 's selector_env =
  all_center_sections :: "'s list"
  all_front_clips :: "string list"
  all_rear_clips :: "string list"
  df_front_calc_ranks :: "'s front_calc_ranks list"
  df_rear_calc_ranks :: "'s rear_calc_ranks list"

definition selector_env ::
  "'s::linorder ranked_row list \<Rightarrow> 's front_calc list \<Rightarrow> 's rear_calc list \<Rightarrow> 's selector_env" where
  "selector_env results front rear =
     \<lparr>all_center_sections = sort (unique (map res_center results)),
      all_front_clips = sort (unique (map front_clip_col (add_front_ranks front))),
      all_rear_clips = sort (unique (map rear_clip_col (add_rear_ranks rear))),
      df_front_calc_ranks = add_front_ranks front,
      df_rear_calc_ranks = add_rear_ranks rear\<rparr>"

text \<open>The rows selected by \<open>front_mask\<close> and \<open>rear_mask\<close>.\<close>

definition front_rows :: "'s selector_env \<Rightarrow> 's \<Rightarrow> string \<Rightarrow> 's front_calc_ranks list" where
  "front_rows env cs fc =
     filter (\<lambda>r. front_center_section_col r = cs \<and> front_clip_col r = fc) (df_front_calc_ranks env)"

definition rear_rows :: "'s selector_env \<Rightarrow> 's \<Rightarrow> string \<Rightarrow> 's rear_calc_ranks list" where
  "rear_rows env cs rc =
     filter (\<lambda>r. rear_center_section_col r = cs \<and> rear_clip_col r = rc) (df_rear_calc_ranks env)"

text \<open>
  \<open>(lf_rank * lf_weight/100) + (rf_rank * rf_weight/100) + (lr_rank * lr_weight/100) +
  (rr_rank * rr_weight/100)\<close>: each product is divided by 100 and the four terms are
  added from left to right, every operation rounded.
\<close>

definition combined_score :: "weights \<Rightarrow> nat \<Rightarrow> nat \<Rightarrow> nat \<Rightarrow> nat \<Rightarrow> rat" where
  "combined_score w lf_rank rf_rank lr_rank rr_rank =
     fadd (fadd (fadd (fdiv (fmul (float_of_rank lf_rank) (lf_weight w)) 100)
                      (fdiv (fmul (float_of_rank rf_rank) (rf_weight w)) 100))
                (fdiv (fmul (float_of_rank lr_rank) (lr_weight w)) 100))
          (fdiv (fmul (float_of_rank rr_rank) (rr_weight w)) 100)"

text \<open>
  The three \<open>best_\<close> variables of one center section. \<open>best_score = None\<close> is
  \<open>float('inf')\<close>, above every score.
\<close>

record best =
  best_score :: "rat option"
  best_front :: "string option"
  best_rear :: "string option"

fun below :: "rat \<Rightarrow> rat option \<Rightarrow> bool" where
  "below s None = True"
| "below s (Some b) = (s < b)"

text \<open>The loop over \<open>all_rear_clips\<close> (lines 1617--1638) for one front clip.\<close>

fun rear_clips_loop ::
  "weights \<Rightarrow> 's selector_env \<Rightarrow> string set \<Rightarrow> 's \<Rightarrow> string \<Rightarrow> nat \<Rightarrow> nat \<Rightarrow>
     string list \<Rightarrow> best \<Rightarrow> best" where
  "rear_clips_loop w env used_rear cs fc lf_rank rf_rank [] b = b"
| "rear_clips_loop w env used_rear cs fc lf_rank rf_rank (rc # rest) b =
     (if rc \<in> used_rear then rear_clips_loop w env used_rear cs fc lf_rank rf_rank rest b
      else case rear_rows env cs rc of
        [] \<Rightarrow> rear_clips_loop w env used_rear cs fc lf_rank rf_rank rest b
      | row # _ \<Rightarrow>
          (let lr_rank = rear_LR_Rank row;
               rr_rank = rear_RR_Rank row;
               score = combined_score w lf_rank rf_rank lr_rank rr_rank
           in rear_clips_loop w env used_rear cs fc lf_rank rf_rank rest
                (if below score (best_score b)
                 then \<lparr>best_score = Some score, best_front = Some fc, best_rear = Some rc\<rparr>
                 else b)))"

text \<open>The loop over \<open>all_front_clips\<close> (lines 1602--1638).\<close>

fun front_clips_loop ::
  "weights \<Rightarrow> 's selector_env \<Rightarrow> string set \<Rightarrow> string set \<Rightarrow> 's \<Rightarrow> string list \<Rightarrow> best \<Rightarrow> best" where
  "front_clips_loop w env used_front used_rear cs [] b = b"
| "front_clips_loop w env used_front used_rear cs (fc # rest) b =
     (if fc \<in> used_front then front_clips_loop w env used_front used_rear cs rest b
      else case front_rows env cs fc of
        [] \<Rightarrow> front_clips_loop w env used_front used_rear cs rest b
      | row # _ \<Rightarrow>
          (let lf_rank = front_LF_Rank row;
               rf_rank = front_RF_Rank row
           in front_clips_loop w env used_front used_rear cs rest
                (rear_clips_loop w env used_rear cs fc lf_rank rf_rank (all_rear_clips env) b)))"

text \<open>
  An entry of \<open>center_best_combos\<close>; \<open>score = None\<close> is \<open>float('inf')\<close>. The entry of
  the assignment dictionary is its \<open>front_clip\<close> and \<open>rear_clip\<close>.
\<close>

record 's combo = assignment +
  center :: 's
  score :: "rat option"

record 's opt_state =
  center_best_combos :: "'s combo list"
  used_front_clips :: "string set"
  used_rear_clips :: "string set"

text \<open>
  \<open>next((c for c in clips if c not in used), clips[0])\<close>: the default \<open>clips[0]\<close> is
  evaluated first and raises on an empty list.
\<close>

definition next_unused :: "string list \<Rightarrow> string set \<Rightarrow> error + string" where
  "next_unused clips used =
     (case clips of
        [] \<Rightarrow> Inl IndexError
      | c0 # _ \<Rightarrow> (case filter (\<lambda>c. c \<notin> used) clips of [] \<Rightarrow> Inr c0 | c # _ \<Rightarrow> Inr c))"

text \<open>Python's truth value of \<open>best_front\<close> and \<open>best_rear\<close>: neither \<open>None\<close> nor empty.\<close>

fun truthy :: "string option \<Rightarrow> bool" where
  "truthy None = False"
| "truthy (Some c) = (c \<noteq> [])"

definition add_combo :: "'s opt_state \<Rightarrow> 's \<Rightarrow> string \<Rightarrow> string \<Rightarrow> rat option \<Rightarrow> 's opt_state" where
  "add_combo st cs fc rc sc =
     \<lparr>center_best_combos =
        center_best_combos st @ [\<lparr>front_clip = fc, rear_clip = rc, center = cs, score = sc\<rparr>],
      used_front_clips = insert fc (used_front_clips st),
      used_rear_clips = insert rc (used_rear_clips st)\<rparr>"

text \<open>The fallback branch (lines 1651--1661).\<close>

definition fallback :: "'s selector_env \<Rightarrow> 's \<Rightarrow> 's opt_state \<Rightarrow> error + 's opt_state" where
  "fallback env cs st =
     (case next_unused (all_front_clips env) (used_front_clips st) of
        Inl e \<Rightarrow> Inl e
      | Inr fallback_front \<Rightarrow>
          (case next_unused (all_rear_clips env) (used_rear_clips st) of
             Inl e \<Rightarrow> Inl e
           | Inr fallback_rear \<Rightarrow> Inr (add_combo st cs fallback_front fallback_rear None)))"

text \<open>The body of the loop over the center sections (lines 1597--1661).\<close>

definition assign_center :: "weights \<Rightarrow> 's selector_env \<Rightarrow> 's \<Rightarrow> 's opt_state \<Rightarrow> error + 's opt_state" where
  "assign_center w env cs st =
     (let b = front_clips_loop w env (used_front_clips st) (used_rear_clips st) cs
                (all_front_clips env)
                \<lparr>best_score = None, best_front = None, best_rear = None\<rparr>
      in if truthy (best_front b) \<and> truthy (best_rear b)
         then (case best_front b of
                 None \<Rightarrow> fallback env cs st
               | Some bf \<Rightarrow>
                   (case best_rear b of
                      None \<Rightarrow> fallback env cs st
                    | Some br \<Rightarrow> Inr (add_combo st cs bf br (best_score b))))
         else fallback env cs st)"

fun center_sections_loop ::
  "weights \<Rightarrow> 's selector_env \<Rightarrow> 's list \<Rightarrow> 's opt_state \<Rightarrow> error + 's opt_state" where
  "center_sections_loop w env [] st = Inr st"
| "center_sections_loop w env (cs # rest) st =
     (case assign_center w env cs st of
        Inl e \<Rightarrow> Inl e
      | Inr st' \<Rightarrow> center_sections_loop w env rest st')"

text \<open>The loop that stores the entries in the dictionary (lines 1664--1668).\<close>

fun store_assignments :: "'s combo list \<Rightarrow> ('s \<rightharpoonup> assignment) \<Rightarrow> ('s \<rightharpoonup> assignment)" where
  "store_assignments [] assignments = assignments"
| "store_assignments (combo # rest) assignments =
     store_assignments rest
       (assignments(center combo \<mapsto> \<lparr>front_clip = front_clip combo, rear_clip = rear_clip combo\<rparr>))"

definition run_optimizer :: "weights \<Rightarrow> 's selector_env \<Rightarrow> error + 's opt_state" where
  "run_optimizer w env =
     center_sections_loop w env (all_center_sections env)
       \<lparr>center_best_combos = [], used_front_clips = {}, used_rear_clips = {}\<rparr>"

definition calculate_optimal_assignments ::
  "weights \<Rightarrow> 's selector_env \<Rightarrow> error + ('s \<rightharpoonup> assignment)" where
  "calculate_optimal_assignments w env =
     (case run_optimizer w env of
        Inl e \<Rightarrow> Inl e
      | Inr st \<Rightarrow> Inr (store_assignments (center_best_combos st) Map.empty))"

section \<open>The Selector tab up to the Calculate button (lines 1556--1723)\<close>

text \<open>
  One run of the Selector tab in dual-sheet mode with the four typed weights and
  \<open>clicked\<close>, whether the user presses the button in this run. A disabled button
  returns \<open>False\<close>. The tab is drawn only when \<open>results_df\<close> is in the session state.
  An exception ends the run with \<open>Inl\<close>; the session state it leaves behind is not
  part of the result. The run ends at \<open>st.rerun()\<close> (line 1723).
\<close>

text \<open>
  \<open>total_weight = lf_weight + rf_weight + lr_weight + rr_weight\<close>, added from left to
  right, and the test \<open>abs(total_weight - 100.0) > 0.01\<close>: the subtraction is rounded and
  \<open>0.01\<close> is the double nearest to one hundredth.
\<close>

definition total_weight :: "weights \<Rightarrow> rat" where
  "total_weight typed =
     fadd (fadd (fadd (lf_weight typed) (rf_weight typed)) (lr_weight typed)) (rr_weight typed)"

definition weight_gate :: "rat \<Rightarrow> bool" where
  "weight_gate tw \<longleftrightarrow> \<bar>fsub tw 100\<bar> > fl (1 / 100)"

definition default_weights :: weights where
  "default_weights = \<lparr>lf_weight = 25, rf_weight = 25, lr_weight = 25, rr_weight = 25\<rparr>"

definition selector :: "weights \<Rightarrow> bool \<Rightarrow> 's::linorder session \<Rightarrow> error + 's session" where
  "selector typed clicked st =
     (case results_df st of
        None \<Rightarrow> Inr st
      | Some results \<Rightarrow>
     (case df_front_calc st of
        None \<Rightarrow> Inl KeyError
      | Some front \<Rightarrow>
     (case df_rear_calc st of
        None \<Rightarrow> Inl KeyError
      | Some rear \<Rightarrow>
     (let env = selector_env results front rear;
          cw = (case corner_weights st of None \<Rightarrow> default_weights | Some cw \<Rightarrow> cw);
          st1 = st\<lparr>corner_weights := Some cw\<rparr>
      in case (case lineup_assignments st1 of
                 None \<Rightarrow> calculate_optimal_assignments cw env
               | Some a \<Rightarrow> Inr a) of
           Inl e \<Rightarrow> Inl e
         | Inr a \<Rightarrow>
             (let st2 = st1\<lparr>lineup_assignments := Some a\<rparr>;
                  calculate_button = (if weight_gate (total_weight typed) then False else clicked)
              in if calculate_button
                 then (case calculate_optimal_assignments typed env of
                         Inl e \<Rightarrow> Inl e
                       | Inr a' \<Rightarrow> Inr (st2\<lparr>corner_weights := Some typed,
                                               lineup_assignments := Some a'\<rparr>))
                 else Inr st2)))))"

section \<open>The candidate pairs of the specification\<close>

text \<open>
  Written from the specification, not from the loops: the pairs of a front clip and a rear
  clip that are both still unused and both have a row for the center section, each with
  its score \<open>sc LF_rank RF_rank LR_rank RR_rank\<close>, in the nested order of the two clip
  lists. The ranks are those of the first matching row. The specification scores a pair
  with \<open>weighted_combination\<close>, the exact weighted sum of the four ranks; the optimizer
  scores it with \<open>combined_score\<close>.
\<close>

definition weighted_combination :: "weights \<Rightarrow> nat \<Rightarrow> nat \<Rightarrow> nat \<Rightarrow> nat \<Rightarrow> rat" where
  "weighted_combination w lf_rank rf_rank lr_rank rr_rank =
     lf_weight w * of_nat lf_rank + rf_weight w * of_nat rf_rank +
     lr_weight w * of_nat lr_rank + rr_weight w * of_nat rr_rank"

definition rear_candidates ::
  "(nat \<Rightarrow> nat \<Rightarrow> nat \<Rightarrow> nat \<Rightarrow> rat) \<Rightarrow> 's selector_env \<Rightarrow> string set \<Rightarrow> 's \<Rightarrow> string \<Rightarrow>
     nat \<Rightarrow> nat \<Rightarrow> string list \<Rightarrow> (string \<times> string \<times> rat) list" where
  "rear_candidates sc env used_rear cs fc lf_rank rf_rank rcs =
     concat (map (\<lambda>rc. if rc \<in> used_rear then []
                        else (case rear_rows env cs rc of
                                [] \<Rightarrow> []
                              | row # _ \<Rightarrow>
                                  [(fc, rc, sc lf_rank rf_rank
                                              (rear_LR_Rank row) (rear_RR_Rank row))])) rcs)"

definition front_candidates ::
  "(nat \<Rightarrow> nat \<Rightarrow> nat \<Rightarrow> nat \<Rightarrow> rat) \<Rightarrow> 's selector_env \<Rightarrow> string set \<Rightarrow> string set \<Rightarrow> 's \<Rightarrow>
     string list \<Rightarrow> (string \<times> string \<times> rat) list" where
  "front_candidates sc env used_front used_rear cs fcs =
     concat (map (\<lambda>fc. if fc \<in> used_front then []
                        else (case front_rows env cs fc of
                                [] \<Rightarrow> []
                              | row # _ \<Rightarrow>
                                  rear_candidates sc env used_rear cs fc
                                    (front_LF_Rank row) (front_RF_Rank row) (all_rear_clips env))) fcs)"

definition candidate_pairs ::
  "(nat \<Rightarrow> nat \<Rightarrow> nat \<Rightarrow> nat \<Rightarrow> rat) \<Rightarrow> 's selector_env \<Rightarrow> 's opt_state \<Rightarrow> 's \<Rightarrow>
     (string \<times> string \<times> rat) list" where
  "candidate_pairs sc env st cs =
     front_candidates sc env (used_front_clips st) (used_rear_clips st) cs (all_front_clips env)"

text \<open>
  \<open>first_minimum cands (f, r, s)\<close>: the pair \<open>(f, r)\<close> with score \<open>s\<close> is a candidate, no
  candidate has a smaller score, and every candidate before it has a strictly greater one.
\<close>

definition first_minimum :: "(string \<times> string \<times> rat) list \<Rightarrow> string \<times> string \<times> rat \<Rightarrow> bool" where
  "first_minimum cands c \<longleftrightarrow>
     (\<exists>i<length cands. cands ! i = c \<and>
        (\<forall>j<length cands. snd (snd c) \<le> snd (snd (cands ! j))) \<and>
        (\<forall>j<i. snd (snd c) < snd (snd (cands ! j))))"

text \<open>The update of the three \<open>best_\<close> variables along a list of scored pairs.\<close>

fun keep_best :: "(string \<times> string \<times> rat) list \<Rightarrow> best \<Rightarrow> best" where
  "keep_best [] b = b"
| "keep_best ((fc, rc, s) # rest) b =
     keep_best rest (if below s (best_score b)
                     then \<lparr>best_score = Some s, best_front = Some fc, best_rear = Some rc\<rparr>
                     else b)"

definition no_best :: best where
  "no_best = \<lparr>best_score = None, best_front = None, best_rear = None\<rparr>"

definition initial_state :: "'s opt_state" where
  "initial_state = \<lparr>center_best_combos = [], used_front_clips = {}, used_rear_clips = {}\<rparr>"

text \<open>The used sets are the clips of the entries made so far.\<close>

definition used_consistent :: "'s opt_state \<Rightarrow> bool" where
  "used_consistent st \<longleftrightarrow>
     used_front_clips st = front_clip ` set (center_best_combos st) \<and>
     used_rear_clips st = rear_clip ` set (center_best_combos st)"

text \<open>The entries of a returned assignment dictionary at the given center sections.\<close>

definition assignment_entries ::
  "error + ('s \<rightharpoonup> assignment) \<Rightarrow> 's list \<Rightarrow> error + assignment option list" where
  "assignment_entries res css = (case res of Inl e \<Rightarrow> Inl e | Inr a \<Rightarrow> Inr (map a css))"

text \<open>The entries of the assignment stored in a session at the given center sections.\<close>

definition lineup_entries ::
  "error + 's session \<Rightarrow> 's list \<Rightarrow> error + assignment option list option" where
  "lineup_entries res css =
     (case res of
        Inl e \<Rightarrow> Inl e
      | Inr st \<Rightarrow> Inr (case lineup_assignments st of None \<Rightarrow> None | Some a \<Rightarrow> Some (map a css)))"

section \<open>The rear rank of the specification\<close>

text \<open>
  Written from the specification: every record of the ranked working set has the rear
  weighted score \<open>2 * LR_rank + 1 * RR_rank\<close>, and the rear rank is the ascending
  min-method rank of that score.
\<close>

definition spec_rear_weighted_score :: "'s ranked_row \<Rightarrow> nat" where
  "spec_rear_weighted_score r = 2 * LR_Rank r + 1 * RR_Rank r"

definition spec_rear_rank :: "'s ranked_row list \<Rightarrow> nat list" where
  "spec_rear_rank results = rank_min True (map spec_rear_weighted_score results)"

text \<open>
  The ascending min-method re-rank of a score column, for the records at positions \<open>i\<close>
  and \<open>j\<close> (written from the specification).
\<close>

definition min_rank_ascending :: "nat list \<Rightarrow> nat list \<Rightarrow> nat \<Rightarrow> nat \<Rightarrow> bool" where
  "min_rank_ascending scores ranks i j \<longleftrightarrow>
     (scores ! i < scores ! j \<longrightarrow> ranks ! i < ranks ! j) \<and>
     (scores ! i = scores ! j \<longrightarrow> ranks ! i = ranks ! j) \<and>
     ranks ! i = 1 + length (filter (\<lambda>y. y < scores ! i) scores)"

section \<open>The rank invariant of the specification\<close>

text \<open>
  The specification's rank invariant for the records at positions \<open>i\<close> and \<open>j\<close> of a
  column \<open>lens\<close> with ranks \<open>ranks\<close> (written from the specification, not from the code).
\<close>

definition min_rank_descending :: "real list \<Rightarrow> nat list \<Rightarrow> nat \<Rightarrow> nat \<Rightarrow> bool" where
  "min_rank_descending lens ranks i j \<longleftrightarrow>
     (lens ! j < lens ! i \<longrightarrow> ranks ! i < ranks ! j) \<and>
     (lens ! i = lens ! j \<longrightarrow> ranks ! i = ranks ! j) \<and>
     ranks ! i = 1 + length (filter (\<lambda>y. lens ! i < y) lens)"

section \<open>The lower mount of the specification\<close>

text \<open>
  The lower mount as the specification writes it: the centre with \<open>|offset|\<close> subtracted
  from y at a left corner and added at a right corner.
\<close>

definition spec_lower_mount :: "corner \<Rightarrow> real \<times> real \<times> real \<Rightarrow> real \<Rightarrow> real \<times> real \<times> real" where
  "spec_lower_mount c lca_center off =
     (case lca_center of (x, y, z) \<Rightarrow>
        (x, (if c = LF \<or> c = LR then y - \<bar>off\<bar> else y + \<bar>off\<bar>), z))"

section \<open>Example inputs\<close>

definition example_results :: "nat result_row list" where
  "example_results =
     [\<lparr>res_center = 1, res_clip = Clip ''A'', LF_Damper_Length = 12, RF_Damper_Length = 10,
       LR_Damper_Length = 9, RR_Damper_Length = 7\<rparr>,
      \<lparr>res_center = 1, res_clip = Clip ''B'', LF_Damper_Length = 11, RF_Damper_Length = 11,
       LR_Damper_Length = 9, RR_Damper_Length = 8\<rparr>,
      \<lparr>res_center = 2, res_clip = Clip ''A'', LF_Damper_Length = 10, RF_Damper_Length = 10,
       LR_Damper_Length = 8, RR_Damper_Length = 9\<rparr>]"

definition example_pts :: "real \<Rightarrow> real \<Rightarrow> corner_pts" where
  "example_pts y z =
     \<lparr>upper_x = 0, upper_y = y, upper_z = 10,
      lca_front_x = 1, lca_front_y = y, lca_front_z = z,
      lca_rear_x = -1, lca_rear_y = y, lca_rear_z = z\<rparr>"

definition example_sheet :: "nat sheet_row list" where
  "example_sheet =
     [\<lparr>center_section = 1, clip = ''A'',
       lf = example_pts (-20) 0, rf = example_pts 20 2,
       lr = example_pts (-20) 4, rr = example_pts 20 4\<rparr>]"

definition example_config :: config where
  "example_config =
     \<lparr>lf_y_offset = -2, rf_y_offset = 2, lr_y_offset = 3, rr_y_offset = -3,
      normalize_lca_z = True\<rparr>"


text \<open>
  Two center sections with three front and two rear clips each. Center section 2 has its
  longest dampers with F1 and R1, and equal lengths with F2 and F3.
\<close>

definition front_row :: "nat \<Rightarrow> string \<Rightarrow> real \<Rightarrow> real \<Rightarrow> nat front_calc" where
  "front_row cs c lf_len rf_len =
     \<lparr>front_center_section_col = cs, front_clip_col = c,
      front_LF_Damper_Length = lf_len, front_RF_Damper_Length = rf_len\<rparr>"

definition rear_row :: "nat \<Rightarrow> string \<Rightarrow> real \<Rightarrow> real \<Rightarrow> nat rear_calc" where
  "rear_row cs c lr_len rr_len =
     \<lparr>rear_center_section_col = cs, rear_clip_col = c,
      rear_LR_Damper_Length = lr_len, rear_RR_Damper_Length = rr_len\<rparr>"

definition example_front :: "nat front_calc list" where
  "example_front =
     [front_row 2 ''F3'' 9 9, front_row 1 ''F1'' 12 12, front_row 1 ''F2'' 11 11,
      front_row 1 ''F3'' 10 10, front_row 2 ''F1'' 13 13, front_row 2 ''F2'' 9 9]"

definition example_rear :: "nat rear_calc list" where
  "example_rear =
     [rear_row 1 ''R1'' 12 12, rear_row 1 ''R2'' 11 11,
      rear_row 2 ''R1'' 13 13, rear_row 2 ''R2'' 10 10]"

definition example_env :: "nat selector_env" where
  "example_env =
     selector_env (add_ranks (merge_inner example_front example_rear)) example_front example_rear"

text \<open>The state of the optimizer on \<open>example_env\<close> when center section 2 is reached.\<close>

definition example_state :: "nat opt_state" where
  "example_state =
     \<lparr>center_best_combos =
        [\<lparr>front_clip = ''F1'', rear_clip = ''R1'', center = 1, score = Some 2\<rparr>],
      used_front_clips = {''F1''}, used_rear_clips = {''R1''}\<rparr>"

text \<open>Two center sections that share the only front clip and the only rear clip.\<close>

definition scarce_front :: "nat front_calc list" where
  "scarce_front = [front_row 1 ''F1'' 12 12, front_row 2 ''F1'' 11 11]"

definition scarce_rear :: "nat rear_calc list" where
  "scarce_rear = [rear_row 1 ''R1'' 12 12, rear_row 2 ''R1'' 11 11]"

definition scarce_env :: "nat selector_env" where
  "scarce_env =
     selector_env (add_ranks (merge_inner scarce_front scarce_rear)) scarce_front scarce_rear"

text \<open>The state of the optimizer on \<open>scarce_env\<close> when center section 2 is reached.\<close>

definition scarce_state :: "nat opt_state" where
  "scarce_state =
     \<lparr>center_best_combos =
        [\<lparr>front_clip = ''F1'', rear_clip = ''R1'', center = 1, score = Some 1\<rparr>],
      used_front_clips = {''F1''}, used_rear_clips = {''R1''}\<rparr>"

text \<open>
  One center section with two front clips, F1 better at LF and F2 better at RF, in a
  session whose assignment was computed with all weight on RF; and weights typed
  afterwards: 25.005 (as a double), 25, 25 and 25.
\<close>

definition gate_front :: "nat front_calc list" where
  "gate_front = [front_row 1 ''F1'' 12 10, front_row 1 ''F2'' 11 11]"

definition gate_rear :: "nat rear_calc list" where
  "gate_rear = [rear_row 1 ''R1'' 9 9]"

definition gate_session :: "nat session" where
  "gate_session =
     \<lparr>df_front_calc = Some gate_front, df_rear_calc = Some gate_rear,
      results_df = Some (add_ranks (merge_inner gate_front gate_rear)),
      corner_weights = Some \<lparr>lf_weight = 0, rf_weight = 100, lr_weight = 0, rr_weight = 0\<rparr>,
      lineup_assignments = Some [1 \<mapsto> \<lparr>front_clip = ''F2'', rear_clip = ''R1''\<rparr>]\<rparr>"

definition gate_typed :: weights where
  "gate_typed = \<lparr>lf_weight = fl (25005 / 1000), rf_weight = 25, lr_weight = 25, rr_weight = 25\<rparr>"

definition short_typed :: weights where
  "short_typed = \<lparr>lf_weight = 24, rf_weight = 25, lr_weight = 25, rr_weight = 25\<rparr>"

text \<open>A rear sheet whose only center section is not in \<open>example_sheet\<close>.\<close>

definition other_sheet :: "nat sheet_row list" where
  "other_sheet =
     [\<lparr>center_section = 2, clip = ''B'',
       lf = example_pts (-20) 0, rf = example_pts 20 2,
       lr = example_pts (-20) 4, rr = example_pts 20 4\<rparr>]"

text \<open>Two records of a single sheet, each the only one of its center section.\<close>

definition rollup_results :: "nat result_row list" where
  "rollup_results =
     [\<lparr>res_center = 1, res_clip = Clip ''A'', LF_Damper_Length = 12, RF_Damper_Length = 10,
       LR_Damper_Length = 9, RR_Damper_Length = 7\<rparr>,
      \<lparr>res_center = 2, res_clip = Clip ''B'', LF_Damper_Length = 11, RF_Damper_Length = 11,
       LR_Damper_Length = 8, RR_Damper_Length = 9\<rparr>]"

text \<open>
  One center section in the rear sheet, with front clips F1 (LF rank 2, RF rank 4) and
  F2 (LF rank 3, RF rank 3) and the rear clip R1, and the weights 20, 20, 30 and 30: the
  weighted combinations of F1/R1 and F2/R1 are both 180.
\<close>

definition tie_front :: "nat front_calc list" where
  "tie_front =
     [front_row 1 ''F1'' 13 11, front_row 1 ''F2'' 12 12,
      front_row 2 ''F1'' 14 14, front_row 2 ''F2'' 11 13]"

definition tie_rear :: "nat rear_calc list" where
  "tie_rear = [rear_row 1 ''R1'' 10 10]"

definition tie_env :: "nat selector_env" where
  "tie_env = selector_env (add_ranks (merge_inner tie_front tie_rear)) tie_front tie_rear"

definition tie_weights :: weights where
  "tie_weights = \<lparr>lf_weight = 20, rf_weight = 20, lr_weight = 30, rr_weight = 30\<rparr>"

text \<open>The weights 25.01 (as a double), 25, 25 and 25.\<close>

definition boundary_typed :: weights where
  "boundary_typed = \<lparr>lf_weight = fl (2501 / 100), rf_weight = 25, lr_weight = 25, rr_weight = 25\<rparr>"

section \<open>Properties of the ranking\<close>

lemma takeWhile_neq_sorted_desc:
  "sorted (rev ys) \<Longrightarrow> x \<in> set ys \<Longrightarrow>
     takeWhile (\<lambda>y. y \<noteq> x) ys = filter (\<lambda>y. x < y) (ys::'a::linorder list)"
proof (induction ys)
  case Nil
  then show ?case by simp
next
  case (Cons a ys)
  from Cons.prems(1) have srt: "sorted (rev ys)" and ge: "\<forall>y\<in>set ys. y \<le> a"
    by (auto simp: sorted_append)
  show ?case
  proof (cases "a = x")
    case True
    with ge have "filter (\<lambda>y. x < y) ys = []"
      by (auto simp: filter_empty_conv)
    with True show ?thesis by simp
  next
    case False
    with Cons.prems(2) have xin: "x \<in> set ys" by simp
    with ge have "x \<le> a" by blast
    with False have "x < a" by simp
    with Cons.IH[OF srt xin] False show ?thesis by simp
  qed
qed

lemma takeWhile_neq_sorted_asc:
  "sorted ys \<Longrightarrow> x \<in> set ys \<Longrightarrow>
     takeWhile (\<lambda>y. y \<noteq> x) ys = filter (\<lambda>y. y < x) (ys::'a::linorder list)"
proof (induction ys)
  case Nil
  then show ?case by simp
next
  case (Cons a ys)
  from Cons.prems(1) have srt: "sorted ys" and le: "\<forall>y\<in>set ys. a \<le> y"
    by auto
  show ?case
  proof (cases "a = x")
    case True
    with le have "filter (\<lambda>y. y < x) ys = []"
      by (auto simp: filter_empty_conv)
    with True show ?thesis by simp
  next
    case False
    with Cons.prems(2) have xin: "x \<in> set ys" by simp
    with le have "a \<le> x" by blast
    with False have "a < x" by simp
    with Cons.IH[OF srt xin] False show ?thesis by simp
  qed
qed

lemma length_filter_insort:
  "length (filter P (insort x xs)) = length (filter P (x # (xs::'a::linorder list)))"
  by (induction xs) auto

lemma length_filter_sort:
  "length (filter P (sort xs)) = length (filter P (xs::'a::linorder list))"
  by (induction xs) (simp_all add: length_filter_insort)

lemma first_pos_desc:
  "x \<in> set xs \<Longrightarrow> first_pos x (rev (sort xs)) = length (filter (\<lambda>y. x < y) (xs::'a::linorder list))"
proof -
  assume xin: "x \<in> set xs"
  have "takeWhile (\<lambda>y. y \<noteq> x) (rev (sort xs)) = filter (\<lambda>y. x < y) (rev (sort xs))"
    by (rule takeWhile_neq_sorted_desc) (use xin in simp_all)
  then have "first_pos x (rev (sort xs)) = length (filter (\<lambda>y. x < y) (rev (sort xs)))"
    by (simp add: first_pos_def)
  also have "\<dots> = length (filter (\<lambda>y. x < y) (sort xs))"
    by (simp flip: rev_filter)
  finally show ?thesis by (simp add: length_filter_sort)
qed

lemma first_pos_asc:
  "x \<in> set xs \<Longrightarrow> first_pos x (sort xs) = length (filter (\<lambda>y. y < x) (xs::'a::linorder list))"
proof -
  assume xin: "x \<in> set xs"
  have "takeWhile (\<lambda>y. y \<noteq> x) (sort xs) = filter (\<lambda>y. y < x) (sort xs)"
    by (rule takeWhile_neq_sorted_asc) (use xin in simp_all)
  then show ?thesis by (simp add: first_pos_def length_filter_sort)
qed

lemma length_rank_min: "length (rank_min asc xs) = length xs"
  by (simp add: rank_min_def Let_def)

lemma rank_min_desc_nth:
  "i < length xs \<Longrightarrow>
     rank_min False xs ! i = 1 + length (filter (\<lambda>y. xs ! i < y) (xs::'a::linorder list))"
  by (simp add: rank_min_def first_pos_desc)

lemma rank_min_asc_nth:
  "i < length xs \<Longrightarrow>
     rank_min True xs ! i = 1 + length (filter (\<lambda>y. y < xs ! i) (xs::'a::linorder list))"
  by (simp add: rank_min_def first_pos_asc)

lemma length_filter_strict_mono:
  assumes "\<And>y. y \<in> set xs \<Longrightarrow> P y \<Longrightarrow> Q y" and "a \<in> set xs" and "Q a" and "\<not> P a"
  shows "length (filter P xs) < length (filter Q xs)"
  using assms
proof (induction xs)
  case Nil
  then show ?case by simp
next
  case (Cons x xs)
  have le: "length (filter P xs) \<le> length (filter Q xs)"
  proof -
    have "filter P xs = filter P (filter Q xs)"
      using Cons.prems(1) by (auto intro!: filter_cong simp: conj_commute)
    then show ?thesis by (metis length_filter_le)
  qed
  show ?case
  proof (cases "a = x")
    case True
    with Cons.prems(3,4) le show ?thesis by simp
  next
    case False
    with Cons.prems have "length (filter P xs) < length (filter Q xs)"
      by (intro Cons.IH) auto
    with Cons.prems(1)[of x] show ?thesis by auto
  qed
qed

lemma rank_min_desc_strict:
  assumes "i < length xs" and "j < length xs" and "xs ! j < (xs ! i :: 'a::linorder)"
  shows "rank_min False xs ! i < rank_min False xs ! j"
proof -
  have "length (filter (\<lambda>y. xs ! i < y) xs) < length (filter (\<lambda>y. xs ! j < y) xs)"
  proof (rule length_filter_strict_mono)
    show "xs ! i \<in> set xs" using assms(1) by simp
  qed (use assms(3) in auto)
  with assms(1,2) show ?thesis by (simp add: rank_min_desc_nth)
qed

lemma rank_min_desc_eq:
  assumes "i < length xs" and "j < length xs" and "xs ! i = (xs ! j :: 'a::linorder)"
  shows "rank_min False xs ! i = rank_min False xs ! j"
  using assms by (simp add: rank_min_desc_nth)

lemma length_filter_map: "length (filter P (map f xs)) = length (filter (\<lambda>x. P (f x)) xs)"
  by (simp add: filter_map comp_def)

lemma length_add_ranks: "length (add_ranks df) = length df"
  by (simp add: add_ranks_def Let_def)

lemma add_ranks_nth:
  assumes "i < length df"
  shows "LF_Rank (add_ranks df ! i) = rank_min False (map LF_Damper_Length df) ! i"
    and "RF_Rank (add_ranks df ! i) = rank_min False (map RF_Damper_Length df) ! i"
    and "LR_Rank (add_ranks df ! i) = rank_min False (map LR_Damper_Length df) ! i"
    and "RR_Rank (add_ranks df ! i) = rank_min False (map RR_Damper_Length df) ! i"
    and "LF_Damper_Length (add_ranks df ! i) = LF_Damper_Length (df ! i)"
    and "RF_Damper_Length (add_ranks df ! i) = RF_Damper_Length (df ! i)"
    and "LR_Damper_Length (add_ranks df ! i) = LR_Damper_Length (df ! i)"
    and "RR_Damper_Length (add_ranks df ! i) = RR_Damper_Length (df ! i)"
  using assms by (simp_all add: add_ranks_def Let_def)

lemma column_rank_desc:
  fixes f :: "'r \<Rightarrow> real"
  assumes "i < length df" and "j < length df"
  shows "(f (df ! j) < f (df ! i) \<longrightarrow>
            rank_min False (map f df) ! i < rank_min False (map f df) ! j) \<and>
         (f (df ! i) = f (df ! j) \<longrightarrow>
            rank_min False (map f df) ! i = rank_min False (map f df) ! j) \<and>
         rank_min False (map f df) ! i = 1 + length (filter (\<lambda>r. f (df ! i) < f r) df)"
proof (intro conjI impI)
  assume "f (df ! j) < f (df ! i)"
  with assms show "rank_min False (map f df) ! i < rank_min False (map f df) ! j"
    by (intro rank_min_desc_strict) simp_all
next
  assume "f (df ! i) = f (df ! j)"
  with assms show "rank_min False (map f df) ! i = rank_min False (map f df) ! j"
    by (intro rank_min_desc_eq) simp_all
next
  from assms(1) show "rank_min False (map f df) ! i = 1 + length (filter (\<lambda>r. f (df ! i) < f r) df)"
    using rank_min_desc_nth[of i "map f df"] by (simp add: filter_map comp_def)
qed

lemma min_rank_descending_column:
  fixes f :: "'r \<Rightarrow> real"
  assumes "i < length df" and "j < length df" and len: "length rs = length df"
    and col: "\<And>k. k < length df \<Longrightarrow> g (rs ! k) = rank_min False (map f df) ! k"
  shows "min_rank_descending (map f df) (map g rs) i j"
proof -
  have gi: "map g rs ! i = rank_min False (map f df) ! i"
    and gj: "map g rs ! j = rank_min False (map f df) ! j"
    using assms by simp_all
  have fi: "map f df ! i = f (df ! i)" and fj: "map f df ! j = f (df ! j)"
    using assms by simp_all
  have cnt: "length (filter (\<lambda>y. f (df ! i) < y) (map f df)) =
             length (filter (\<lambda>r. f (df ! i) < f r) df)"
    by (simp add: filter_map comp_def)
  show ?thesis
    unfolding min_rank_descending_def gi gj fi fj cnt
    by (rule column_rank_desc[OF assms(1,2)])
qed

text \<open>
  C4. In the ranked working set every corner rank is the descending min-method rank of
  its damper length column: a strictly longer damper has a strictly smaller rank, equal
  lengths have equal ranks, and the rank of a record is one more than the number of
  records with a strictly greater length.
\<close>

theorem corner_ranks_min_descending:
  assumes "i < length df" and "j < length df"
  shows "min_rank_descending (map LF_Damper_Length df) (map LF_Rank (add_ranks df)) i j \<and>
         min_rank_descending (map RF_Damper_Length df) (map RF_Rank (add_ranks df)) i j \<and>
         min_rank_descending (map LR_Damper_Length df) (map LR_Rank (add_ranks df)) i j \<and>
         min_rank_descending (map RR_Damper_Length df) (map RR_Rank (add_ranks df)) i j"
  using assms
  by (intro conjI min_rank_descending_column) (simp_all add: length_add_ranks add_ranks_nth)

theorem corner_ranks_min_descending_witness:
  "(0::nat) < length example_results \<and> (2::nat) < length example_results \<and>
   LF_Damper_Length (example_results ! 2) < LF_Damper_Length (example_results ! 0) \<and>
   LF_Rank (add_ranks example_results ! 0) < LF_Rank (add_ranks example_results ! 2) \<and>
   RF_Damper_Length (example_results ! 0) = RF_Damper_Length (example_results ! 2) \<and>
   RF_Rank (add_ranks example_results ! 0) = RF_Rank (add_ranks example_results ! 2) \<and>
   RR_Rank (add_ranks example_results ! 0) = 3"
  using corner_ranks_min_descending[of 0 example_results 2]
  by (simp add: min_rank_descending_def example_results_def length_add_ranks add_ranks_nth)

section \<open>Properties of the lower mount\<close>

lemma length_lca_center [simp]:
  "length (lca_center_x c df) = length df"
  "length (lca_center_y c df) = length df"
  "length (lca_center_z c df) = length df"
  by (simp_all add: lca_center_x_def lca_center_y_def lca_center_z_def)

lemma length_lower_y [simp]: "length (lower_y c ys off) = length ys"
  by (cases c) simp_all

lemma lower_y_nth:
  "i < length ys \<Longrightarrow>
     lower_y c ys off ! i = (if c = LF \<or> c = LR then ys ! i - \<bar>off\<bar> else ys ! i + \<bar>off\<bar>)"
  by (cases c) simp_all

lemma lower_mount_nth:
  assumes "i < length xs" and "length ys = length xs" and "length zs = length xs"
  shows "lower_mount cfg c xs ys zs ! i = spec_lower_mount c (xs ! i, ys ! i, zs ! i) (y_offset cfg c)"
  using assms by (simp add: lower_mount_def spec_lower_mount_def lower_y_nth)

lemma length_multi_lca_center_z [simp]:
  "length (multi_lca_center_z cfg df_front df_rear c) = length (sheet_of c df_front df_rear)"
  by (simp add: multi_lca_center_z_def Let_def split: option.splits)

text \<open>
  C6. For every record and corner, in single-sheet and in dual-sheet mode, the lower mount
  is the centre of the lower control arm with \<open>|offset|\<close> subtracted from y at the left
  corners LF and LR and added at the right corners RF and RR; so for a non-zero offset of
  either sign the lower mount lies strictly below the centre in y at a left corner and
  strictly above it at a right corner.
\<close>

theorem lower_mount_offset_sign:
  assumes "i < length df" and "k < length (sheet_of c df_front df_rear)"
  shows "single_lower_mount cfg df c ! i =
           spec_lower_mount c (lca_center_x c df ! i, lca_center_y c df ! i,
                               single_lca_center_z cfg df c ! i) (y_offset cfg c) \<and>
         multi_lower_mount cfg df_front df_rear c ! k =
           spec_lower_mount c (lca_center_x c (sheet_of c df_front df_rear) ! k,
                               lca_center_y c (sheet_of c df_front df_rear) ! k,
                               multi_lca_center_z cfg df_front df_rear c ! k) (y_offset cfg c) \<and>
         (y_offset cfg c \<noteq> 0 \<longrightarrow>
            (c = LF \<or> c = LR \<longrightarrow>
               fst (snd (single_lower_mount cfg df c ! i)) < lca_center_y c df ! i \<and>
               fst (snd (multi_lower_mount cfg df_front df_rear c ! k))
                 < lca_center_y c (sheet_of c df_front df_rear) ! k) \<and>
            (c = RF \<or> c = RR \<longrightarrow>
               lca_center_y c df ! i < fst (snd (single_lower_mount cfg df c ! i)) \<and>
               lca_center_y c (sheet_of c df_front df_rear) ! k
                 < fst (snd (multi_lower_mount cfg df_front df_rear c ! k))))"
proof -
  have s: "single_lower_mount cfg df c ! i =
           spec_lower_mount c (lca_center_x c df ! i, lca_center_y c df ! i,
                               single_lca_center_z cfg df c ! i) (y_offset cfg c)"
    using assms(1) by (simp add: single_lower_mount_def single_lca_center_z_def lower_mount_nth)
  have m: "multi_lower_mount cfg df_front df_rear c ! k =
           spec_lower_mount c (lca_center_x c (sheet_of c df_front df_rear) ! k,
                               lca_center_y c (sheet_of c df_front df_rear) ! k,
                               multi_lca_center_z cfg df_front df_rear c ! k) (y_offset cfg c)"
    using assms(2) by (simp add: multi_lower_mount_def Let_def lower_mount_nth)
  show ?thesis
    unfolding s m by (auto simp: spec_lower_mount_def)
qed

theorem lower_mount_offset_sign_witness:
  "(0::nat) < length example_sheet \<and> (0::nat) < length (sheet_of LR example_sheet example_sheet) \<and>
   y_offset example_config LR \<noteq> 0 \<and>
   single_lower_mount example_config example_sheet LR ! 0 = (0, -23, 4) \<and>
   multi_lower_mount example_config example_sheet example_sheet LR ! 0 = (0, -23, 3) \<and>
   fst (snd (single_lower_mount example_config example_sheet LR ! 0))
     < lca_center_y LR example_sheet ! 0"
  using lower_mount_offset_sign[of 0 example_sheet 0 LR example_sheet example_sheet example_config]
  by (simp add: example_sheet_def example_config_def example_pts_def spec_lower_mount_def
      lca_center_x_def lca_center_y_def lca_center_z_def single_lca_center_z_def
      multi_lca_center_z_def all_z_heights_def median_def)

section \<open>Normalisation of the centre heights\<close>

lemma median_nonempty: "xs \<noteq> [] \<Longrightarrow> median xs \<noteq> None"
  unfolding median_def Let_def by (simp only: length_0_conv if_False split: if_split) simp

lemma multi_normalizes_z:
  assumes "normalize_lca_z cfg" and "median (all_z_heights df_front df_rear) = Some median_z"
  shows "multi_lca_center_z cfg df_front df_rear c =
           replicate (length (sheet_of c df_front df_rear)) median_z"
  using assms by (simp add: multi_lca_center_z_def Let_def)

text \<open>
  C1. With \<open>normalize_lca_z\<close> set, the dual-sheet branch replaces every centre height by
  the median of all of them, but the single-sheet branch leaves the heights as computed:
  on the example sheet the median of the four centre heights is 3, the dual-sheet branch
  gives LF the height 3, and the single-sheet branch keeps 0 for LF and uses it as the
  height of the lower mount.
\<close>

theorem single_sheet_ignores_normalize_z:
  "normalize_lca_z example_config \<and>
   median (all_z_heights example_sheet example_sheet) = Some 3 \<and>
   multi_lca_center_z example_config example_sheet example_sheet LF = [3] \<and>
   single_lca_center_z example_config example_sheet LF = [0] \<and>
   single_lower_mount example_config example_sheet LF = [(0, -22, 0)]"
  by (simp add: example_sheet_def example_config_def example_pts_def
      lca_center_x_def lca_center_y_def lca_center_z_def single_lca_center_z_def
      single_lower_mount_def lower_mount_def
      multi_lca_center_z_def all_z_heights_def median_def)

section \<open>Properties of the optimizer\<close>

lemma keep_best_append: "keep_best (xs @ ys) b = keep_best ys (keep_best xs b)"
  by (induction xs b rule: keep_best.induct) simp_all

lemma rear_clips_loop_keep_best:
  "rear_clips_loop w env used_rear cs fc lfr rfr rcs b =
     keep_best (rear_candidates (combined_score w) env used_rear cs fc lfr rfr rcs) b"
proof (induction rcs arbitrary: b)
  case Nil
  show ?case by (simp add: rear_candidates_def)
next
  case (Cons rc rcs)
  have unfold: "rear_candidates (combined_score w) env used_rear cs fc lfr rfr (rc # rcs) =
      (if rc \<in> used_rear then []
       else (case rear_rows env cs rc of [] \<Rightarrow> []
             | row # _ \<Rightarrow> [(fc, rc, combined_score w lfr rfr (rear_LR_Rank row) (rear_RR_Rank row))]))
      @ rear_candidates (combined_score w) env used_rear cs fc lfr rfr rcs"
    by (simp add: rear_candidates_def)
  show ?case
    unfolding unfold keep_best_append
    by (simp add: Cons.IH Let_def split: list.splits)
qed

lemma front_clips_loop_keep_best:
  "front_clips_loop w env used_front used_rear cs fcs b =
     keep_best (front_candidates (combined_score w) env used_front used_rear cs fcs) b"
proof (induction fcs arbitrary: b)
  case Nil
  show ?case by (simp add: front_candidates_def)
next
  case (Cons fc fcs)
  have unfold: "front_candidates (combined_score w) env used_front used_rear cs (fc # fcs) =
      (if fc \<in> used_front then []
       else (case front_rows env cs fc of [] \<Rightarrow> []
             | row # _ \<Rightarrow> rear_candidates (combined_score w) env used_rear cs fc
                            (front_LF_Rank row) (front_RF_Rank row) (all_rear_clips env)))
      @ front_candidates (combined_score w) env used_front used_rear cs fcs"
    by (simp add: front_candidates_def)
  show ?case
    unfolding unfold keep_best_append
    by (simp add: Cons.IH Let_def rear_clips_loop_keep_best split: list.splits)
qed

lemma keep_best_snoc:
  "keep_best (xs @ [(fc, rc, s)]) b =
     (let b' = keep_best xs b
      in if below s (best_score b')
         then \<lparr>best_score = Some s, best_front = Some fc, best_rear = Some rc\<rparr> else b')"
  by (simp add: keep_best_append Let_def)

lemma first_minimum_single: "first_minimum [c] c"
  by (simp add: first_minimum_def)

lemma first_minimum_snoc_new:
  assumes "first_minimum xs (f, r, s)" and "s' < s"
  shows "first_minimum (xs @ [(f', r', s')]) (f', r', s')"
  unfolding first_minimum_def
proof (intro exI[of _ "length xs"] conjI allI impI)
  from assms obtain i where i: "i < length xs" "xs ! i = (f, r, s)"
    and mn: "\<forall>j<length xs. s \<le> snd (snd (xs ! j))"
    by (auto simp: first_minimum_def)
  show "length xs < length (xs @ [(f', r', s')])" by simp
  show "(xs @ [(f', r', s')]) ! length xs = (f', r', s')" by simp
  fix j
  { assume "j < length (xs @ [(f', r', s')])"
    then show "snd (snd (f', r', s')) \<le> snd (snd ((xs @ [(f', r', s')]) ! j))"
      using mn assms(2) by (cases "j < length xs") (auto simp: nth_append less_Suc_eq dest!: spec[of _ j]) }
  { assume "j < length xs"
    then show "snd (snd (f', r', s')) < snd (snd ((xs @ [(f', r', s')]) ! j))"
      using mn assms(2) by (auto simp: nth_append dest!: spec[of _ j]) }
qed

lemma first_minimum_snoc_keep:
  assumes "first_minimum xs (f, r, s)" and "\<not> s' < s"
  shows "first_minimum (xs @ [(f', r', s')]) (f, r, s)"
proof -
  from assms obtain i where i: "i < length xs" "xs ! i = (f, r, s)"
    and mn: "\<forall>j<length xs. s \<le> snd (snd (xs ! j))"
    and st: "\<forall>j<i. s < snd (snd (xs ! j))"
    by (auto simp: first_minimum_def)
  show ?thesis
    unfolding first_minimum_def
  proof (intro exI[of _ i] conjI allI impI)
    show "i < length (xs @ [(f', r', s')])" using i by simp
    show "(xs @ [(f', r', s')]) ! i = (f, r, s)" using i by (simp add: nth_append)
    fix j
    { assume "j < length (xs @ [(f', r', s')])"
      then show "snd (snd (f, r, s)) \<le> snd (snd ((xs @ [(f', r', s')]) ! j))"
        using mn assms(2) by (cases "j < length xs") (auto simp: nth_append less_Suc_eq) }
    { assume "j < i"
      then show "snd (snd (f, r, s)) < snd (snd ((xs @ [(f', r', s')]) ! j))"
        using st i by (auto simp: nth_append) }
  qed
qed

lemma keep_best_first_minimum:
  "cands \<noteq> [] \<Longrightarrow>
     \<exists>f r s. keep_best cands no_best = \<lparr>best_score = Some s, best_front = Some f, best_rear = Some r\<rparr>
          \<and> first_minimum cands (f, r, s)"
proof (induction cands rule: rev_induct)
  case Nil
  then show ?case by simp
next
  case (snoc x xs)
  obtain f' r' s' where x: "x = (f', r', s')" by (cases x) auto
  show ?case
  proof (cases "xs = []")
    case True
    then show ?thesis by (simp add: x no_best_def first_minimum_single)
  next
    case False
    with snoc.IH obtain f r s where
      kb: "keep_best xs no_best = \<lparr>best_score = Some s, best_front = Some f, best_rear = Some r\<rparr>"
      and fm: "first_minimum xs (f, r, s)" by blast
    show ?thesis
    proof (cases "s' < s")
      case True
      with kb first_minimum_snoc_new[OF fm True] show ?thesis
        by (simp add: x keep_best_snoc)
    next
      case False
      with kb first_minimum_snoc_keep[OF fm False] show ?thesis
        by (simp add: x keep_best_snoc)
    qed
  qed
qed

lemma rear_candidates_mem:
  assumes "(f, r, s) \<in> set (rear_candidates (combined_score w) env used_rear cs fc lfr rfr rcs)"
  shows "f = fc \<and> r \<in> set rcs \<and> r \<notin> used_rear"
proof -
  define F where "F = (\<lambda>rc. if rc \<in> used_rear then []
                        else (case rear_rows env cs rc of
                                [] \<Rightarrow> []
                              | row # _ \<Rightarrow>
                                  [(fc, rc, combined_score w lfr rfr
                                              (rear_LR_Rank row) (rear_RR_Rank row))]))"
  have "rear_candidates (combined_score w) env used_rear cs fc lfr rfr rcs = concat (map F rcs)"
    by (simp add: rear_candidates_def F_def)
  with assms obtain rc where rc: "rc \<in> set rcs" and mem: "(f, r, s) \<in> set (F rc)"
    by auto
  from mem have nu: "rc \<notin> used_rear" by (cases "rc \<in> used_rear") (simp_all add: F_def)
  with mem have "f = fc \<and> r = rc" by (cases "rear_rows env cs rc") (simp_all add: F_def)
  with rc nu show ?thesis by simp
qed

lemma front_candidates_mem:
  fixes env :: "'s selector_env"
  assumes "(f, r, s) \<in> set (front_candidates (combined_score w) env used_front used_rear cs fcs)"
  shows "f \<in> set fcs \<and> f \<notin> used_front \<and> r \<in> set (all_rear_clips env) \<and> r \<notin> used_rear"
proof -
  define F where "F = (\<lambda>fc. if fc \<in> used_front then []
                        else (case front_rows env cs fc of
                                [] \<Rightarrow> []
                              | row # _ \<Rightarrow>
                                  rear_candidates (combined_score w) env used_rear cs fc
                                    (front_LF_Rank row) (front_RF_Rank row) (all_rear_clips env)))"
  have "front_candidates (combined_score w) env used_front used_rear cs fcs = concat (map F fcs)"
    by (simp add: front_candidates_def F_def)
  with assms obtain fc where fc: "fc \<in> set fcs" and mem: "(f, r, s) \<in> set (F fc)"
    by auto
  from mem have nu: "fc \<notin> used_front" by (cases "fc \<in> used_front") (simp_all add: F_def)
  with mem obtain row :: "'s front_calc_ranks" where
    "(f, r, s) \<in> set (rear_candidates (combined_score w) env used_rear cs fc
                        (front_LF_Rank row) (front_RF_Rank row) (all_rear_clips env))"
    by (cases "front_rows env cs fc") (auto simp: F_def)
  from rear_candidates_mem[OF this] fc nu show ?thesis by simp
qed

lemma first_minimum_mem: "first_minimum cands c \<Longrightarrow> c \<in> set cands"
  by (auto simp: first_minimum_def)

lemma assign_center_commit:
  assumes "[] \<notin> set (all_front_clips env)" and "[] \<notin> set (all_rear_clips env)"
    and "candidate_pairs (combined_score w) env st cs \<noteq> []"
  shows "\<exists>f r s. assign_center w env cs st = Inr (add_combo st cs f r (Some s)) \<and>
           first_minimum (candidate_pairs (combined_score w) env st cs) (f, r, s)"
proof -
  from keep_best_first_minimum[OF assms(3)] obtain f r s where
    kb: "keep_best (candidate_pairs (combined_score w) env st cs) no_best =
           \<lparr>best_score = Some s, best_front = Some f, best_rear = Some r\<rparr>"
    and fm: "first_minimum (candidate_pairs (combined_score w) env st cs) (f, r, s)" by blast
  from first_minimum_mem[OF fm]
  have "(f, r, s) \<in> set (front_candidates (combined_score w) env (used_front_clips st) (used_rear_clips st) cs
                         (all_front_clips env))"
    by (simp add: candidate_pairs_def)
  from front_candidates_mem[OF this]
  have "f \<in> set (all_front_clips env)" "r \<in> set (all_rear_clips env)" by simp_all
  with assms(1,2) have "f \<noteq> []" "r \<noteq> []" by auto
  with kb have "assign_center w env cs st = Inr (add_combo st cs f r (Some s))"
    by (simp add: assign_center_def front_clips_loop_keep_best candidate_pairs_def no_best_def)
  with fm show ?thesis by blast
qed

lemma assign_center_fallback:
  assumes "candidate_pairs (combined_score w) env st cs = []"
  shows "assign_center w env cs st = fallback env cs st"
  using assms
  by (simp add: assign_center_def front_clips_loop_keep_best candidate_pairs_def)

lemma next_unused_cases:
  assumes "clips \<noteq> []"
  shows "\<exists>c. next_unused clips used = Inr c \<and> c \<in> set clips \<and>
           (if set clips \<subseteq> used then c = clips ! 0 else c \<notin> used)"
proof (cases clips)
  case Nil
  with assms show ?thesis by simp
next
  case (Cons c0 rest)
  show ?thesis
  proof (cases "filter (\<lambda>c. c \<notin> used) clips")
    case Nil
    then have "set clips \<subseteq> used" by (auto simp: filter_empty_conv)
    with Nil Cons show ?thesis by (simp add: next_unused_def)
  next
    case (Cons c cs')
    then have "c \<in> set (filter (\<lambda>c. c \<notin> used) clips)" by simp
    then have "c \<in> set clips" "c \<notin> used" by auto
    with Cons \<open>clips = c0 # rest\<close> show ?thesis by (auto simp: next_unused_def)
  qed
qed

lemma fallback_cases:
  assumes "all_front_clips env \<noteq> []" and "all_rear_clips env \<noteq> []"
  shows "\<exists>f r. fallback env cs st = Inr (add_combo st cs f r None) \<and>
           f \<in> set (all_front_clips env) \<and> r \<in> set (all_rear_clips env) \<and>
           (if set (all_front_clips env) \<subseteq> used_front_clips st
            then f = all_front_clips env ! 0 else f \<notin> used_front_clips st) \<and>
           (if set (all_rear_clips env) \<subseteq> used_rear_clips st
            then r = all_rear_clips env ! 0 else r \<notin> used_rear_clips st)"
proof -
  from next_unused_cases[OF assms(1), of "used_front_clips st"] obtain f where
    f: "next_unused (all_front_clips env) (used_front_clips st) = Inr f" "f \<in> set (all_front_clips env)"
       "if set (all_front_clips env) \<subseteq> used_front_clips st
            then f = all_front_clips env ! 0 else f \<notin> used_front_clips st" by blast
  from next_unused_cases[OF assms(2), of "used_rear_clips st"] obtain r where
    r: "next_unused (all_rear_clips env) (used_rear_clips st) = Inr r" "r \<in> set (all_rear_clips env)"
       "if set (all_rear_clips env) \<subseteq> used_rear_clips st
            then r = all_rear_clips env ! 0 else r \<notin> used_rear_clips st" by blast
  from f r show ?thesis by (intro exI[of _ f] exI[of _ r]) (simp add: fallback_def)
qed

lemma fallback_error:
  assumes "all_front_clips env = [] \<or> all_rear_clips env = []"
  shows "fallback env cs st = Inl IndexError"
proof (cases "all_front_clips env = []")
  case True
  then show ?thesis by (simp add: fallback_def next_unused_def)
next
  case False
  with assms have r: "all_rear_clips env = []" by simp
  from next_unused_cases[OF False, of "used_front_clips st"] obtain f where
    "next_unused (all_front_clips env) (used_front_clips st) = Inr f" by blast
  with r show ?thesis by (simp add: fallback_def next_unused_def)
qed

lemma add_combo_simps [simp]:
  "center_best_combos (add_combo st cs f r sc) =
     center_best_combos st @ [\<lparr>front_clip = f, rear_clip = r, center = cs, score = sc\<rparr>]"
  "used_front_clips (add_combo st cs f r sc) = insert f (used_front_clips st)"
  "used_rear_clips (add_combo st cs f r sc) = insert r (used_rear_clips st)"
  by (simp_all add: add_combo_def)

lemma fallback_result:
  assumes "fallback env cs st = Inr st'"
  shows "\<exists>f r. st' = add_combo st cs f r None"
  using assms by (auto simp: fallback_def split: sum.splits)

lemma assign_center_result:
  assumes "assign_center w env cs st = Inr st'"
  shows "\<exists>f r sc. st' = add_combo st cs f r sc"
proof -
  define b where "b = front_clips_loop w env (used_front_clips st) (used_rear_clips st) cs
                (all_front_clips env)
                \<lparr>best_score = None, best_front = None, best_rear = None\<rparr>"
  show ?thesis
  proof (cases "truthy (best_front b) \<and> truthy (best_rear b)")
    case True
    then obtain bf br where "best_front b = Some bf" "best_rear b = Some br"
      by (cases "best_front b"; cases "best_rear b") simp_all
    with True assms have "st' = add_combo st cs bf br (best_score b)"
      by (simp add: assign_center_def b_def[symmetric])
    then show ?thesis by blast
  next
    case False
    with assms have "fallback env cs st = Inr st'"
      by (simp add: assign_center_def b_def[symmetric] del: truthy.simps)
    from fallback_result[OF this] show ?thesis by blast
  qed
qed

lemma center_sections_loop_append:
  "center_sections_loop w env (xs @ ys) st =
     (case center_sections_loop w env xs st of
        Inl e \<Rightarrow> Inl e
      | Inr st' \<Rightarrow> center_sections_loop w env ys st')"
  by (induction xs arbitrary: st) (simp_all split: sum.splits)

lemma center_sections_loop_snoc:
  "center_sections_loop w env (xs @ [cs]) st =
     (case center_sections_loop w env xs st of
        Inl e \<Rightarrow> Inl e
      | Inr st' \<Rightarrow> assign_center w env cs st')"
  by (simp add: center_sections_loop_append split: sum.splits)

lemma used_consistent_initial: "used_consistent initial_state"
  by (simp add: used_consistent_def initial_state_def)

lemma used_consistent_add_combo:
  "used_consistent st \<Longrightarrow> used_consistent (add_combo st cs f r sc)"
  by (auto simp: used_consistent_def)

lemma center_sections_loop_result:
  assumes "center_sections_loop w env css st = Inr st'"
  shows "map center (center_best_combos st') = map center (center_best_combos st) @ css \<and>
         take (length (center_best_combos st)) (center_best_combos st') = center_best_combos st \<and>
         (used_consistent st \<longrightarrow> used_consistent st')"
  using assms
proof (induction css arbitrary: st)
  case Nil
  then show ?case by simp
next
  case (Cons cs css)
  from Cons.prems obtain st1 where a: "assign_center w env cs st = Inr st1"
    and l: "center_sections_loop w env css st1 = Inr st'"
    by (auto split: sum.splits)
  from assign_center_result[OF a] obtain f r sc where st1: "st1 = add_combo st cs f r sc"
    by blast
  from Cons.IH[OF l] have
    m: "map center (center_best_combos st') = map center (center_best_combos st1) @ css"
    and t: "take (length (center_best_combos st1)) (center_best_combos st') = center_best_combos st1"
    and u: "used_consistent st1 \<longrightarrow> used_consistent st'" by simp_all
  from t have "take (length (center_best_combos st)) (take (length (center_best_combos st1)) (center_best_combos st'))
        = take (length (center_best_combos st)) (center_best_combos st1)" by simp
  then have t': "take (length (center_best_combos st)) (center_best_combos st') = center_best_combos st"
    by (simp add: st1 min_def)
  from m t' u show ?case
    by (simp add: st1 used_consistent_add_combo)
qed

lemma run_optimizer_alt:
  "run_optimizer w env = center_sections_loop w env (all_center_sections env) initial_state"
  by (simp add: run_optimizer_def initial_state_def)

lemma assign_center_total:
  assumes "all_front_clips env \<noteq> []" and "all_rear_clips env \<noteq> []"
  shows "\<exists>st'. assign_center w env cs st = Inr st'"
proof -
  define b where "b = front_clips_loop w env (used_front_clips st) (used_rear_clips st) cs
                (all_front_clips env)
                \<lparr>best_score = None, best_front = None, best_rear = None\<rparr>"
  from fallback_cases[OF assms, of cs st] obtain st1 where fb: "fallback env cs st = Inr st1"
    by blast
  show ?thesis
  proof (cases "truthy (best_front b) \<and> truthy (best_rear b)")
    case True
    then obtain bf br where "best_front b = Some bf" "best_rear b = Some br"
      by (cases "best_front b"; cases "best_rear b") simp_all
    with True show ?thesis
      by (simp add: assign_center_def b_def[symmetric])
  next
    case False
    then have "assign_center w env cs st = fallback env cs st"
      unfolding assign_center_def Let_def b_def[symmetric] by (simp only: if_False)
    with fb show ?thesis by simp
  qed
qed

lemma center_sections_loop_total:
  assumes "all_front_clips env \<noteq> []" and "all_rear_clips env \<noteq> []"
  shows "\<exists>st'. center_sections_loop w env css st = Inr st'"
proof (induction css arbitrary: st)
  case Nil
  show ?case by simp
next
  case (Cons cs css)
  from assign_center_total[OF assms, of w cs st] obtain st1 where
    "assign_center w env cs st = Inr st1" by blast
  with Cons.IH[of st1] show ?case by simp
qed

lemma candidates_nonempty_clips:
  assumes "candidate_pairs (combined_score w) env st cs \<noteq> []"
  shows "all_front_clips env \<noteq> [] \<and> all_rear_clips env \<noteq> []"
proof -
  from assms obtain f r s where "(f, r, s) \<in> set (candidate_pairs (combined_score w) env st cs)"
    by (cases "candidate_pairs (combined_score w) env st cs") auto
  then have "(f, r, s) \<in> set (front_candidates (combined_score w) env (used_front_clips st) (used_rear_clips st) cs
                         (all_front_clips env))"
    by (simp add: candidate_pairs_def)
  from front_candidates_mem[OF this] show ?thesis by auto
qed

text \<open>The state in which the center section at position \<open>k\<close> is reached, and its entry.\<close>

lemma run_step:
  assumes run: "run_optimizer w env = Inr final"
    and k: "k < length (all_center_sections env)"
    and pre: "center_sections_loop w env (take k (all_center_sections env)) initial_state = Inr st"
  shows "center_best_combos st = take k (center_best_combos final)"
    and "length (center_best_combos final) = length (all_center_sections env)"
    and "used_consistent st"
    and "assign_center w env (all_center_sections env ! k) st =
           Inr (add_combo st (all_center_sections env ! k)
                  (front_clip (center_best_combos final ! k))
                  (rear_clip (center_best_combos final ! k))
                  (score (center_best_combos final ! k)))"
    and "center (center_best_combos final ! k) = all_center_sections env ! k"
proof -
  let ?css = "all_center_sections env"
  have split: "?css = take k ?css @ [?css ! k] @ drop (Suc k) ?css"
    using k by (simp add: Cons_nth_drop_Suc)
  from center_sections_loop_result[OF pre] have
    len_st: "length (center_best_combos st) = k" and uc: "used_consistent st"
    using k by (auto simp: initial_state_def used_consistent_initial[unfolded initial_state_def]
                    dest: arg_cong[where f=length])
  have "center_sections_loop w env ?css initial_state =
          (case assign_center w env (?css ! k) st of Inl e \<Rightarrow> Inl e
           | Inr st1 \<Rightarrow> center_sections_loop w env (drop (Suc k) ?css) st1)"
    by (subst split) (simp add: center_sections_loop_append pre)
  with run obtain st1 where a: "assign_center w env (?css ! k) st = Inr st1"
    and rest: "center_sections_loop w env (drop (Suc k) ?css) st1 = Inr final"
    by (auto simp: run_optimizer_alt split: sum.splits)
  from assign_center_result[OF a] obtain f r sc where st1: "st1 = add_combo st (?css ! k) f r sc"
    by blast
  from center_sections_loop_result[OF rest] have
    tk: "take (Suc k) (center_best_combos final) =
           center_best_combos st @ [\<lparr>front_clip = f, rear_clip = r, center = ?css ! k, score = sc\<rparr>]"
    by (simp add: st1 len_st)
  from run have "map center (center_best_combos final) = ?css"
    using center_sections_loop_result[of w env ?css initial_state final]
    by (simp add: run_optimizer_alt initial_state_def)
  then show len: "length (center_best_combos final) = length ?css"
    by (metis length_map)
  from tk have "take k (take (Suc k) (center_best_combos final)) = center_best_combos st"
    by (simp add: len_st)
  then show cst: "center_best_combos st = take k (center_best_combos final)"
    by (simp add: min_def)
  from tk have "take (Suc k) (center_best_combos final) ! k =
        \<lparr>front_clip = f, rear_clip = r, center = ?css ! k, score = sc\<rparr>"
    by (simp add: nth_append len_st)
  then have nth: "center_best_combos final ! k =
        \<lparr>front_clip = f, rear_clip = r, center = ?css ! k, score = sc\<rparr>"
    by simp
  show "used_consistent st" by (rule uc)
  from a st1 nth show "assign_center w env (?css ! k) st =
           Inr (add_combo st (?css ! k)
                  (front_clip (center_best_combos final ! k))
                  (rear_clip (center_best_combos final ! k))
                  (score (center_best_combos final ! k)))" by simp
  from nth show "center (center_best_combos final ! k) = ?css ! k" by simp
qed

lemma store_assignments_other:
  "x \<notin> center ` set combos \<Longrightarrow> store_assignments combos m x = m x"
  by (induction combos arbitrary: m) simp_all

lemma store_assignments_nth:
  assumes "distinct (map center combos)" and "j < length combos"
  shows "store_assignments combos m (center (combos ! j)) =
           Some \<lparr>front_clip = front_clip (combos ! j), rear_clip = rear_clip (combos ! j)\<rparr>"
  using assms
proof (induction combos arbitrary: m j)
  case Nil
  then show ?case by simp
next
  case (Cons c combos)
  show ?case
  proof (cases j)
    case 0
    with Cons.prems show ?thesis by (simp add: store_assignments_other)
  next
    case (Suc j')
    with Cons.prems Cons.IH[of j'] show ?thesis by simp
  qed
qed

lemma calculate_optimal_assignments_lookup:
  assumes run: "run_optimizer w env = Inr final" and dist: "distinct (all_center_sections env)"
  shows "\<exists>a. calculate_optimal_assignments w env = Inr a \<and>
           (\<forall>j<length (all_center_sections env).
              a (all_center_sections env ! j) =
                Some \<lparr>front_clip = front_clip (center_best_combos final ! j),
                      rear_clip = rear_clip (center_best_combos final ! j)\<rparr>) \<and>
           (\<forall>x. x \<notin> set (all_center_sections env) \<longrightarrow> a x = None)"
proof -
  let ?combos = "center_best_combos final"
  from run have m: "map center ?combos = all_center_sections env"
    using center_sections_loop_result[of w env "all_center_sections env" initial_state final]
    by (simp add: run_optimizer_alt initial_state_def)
  then have len: "length ?combos = length (all_center_sections env)" by (metis length_map)
  have d: "distinct (map center ?combos)" using dist m by simp
  have "store_assignments ?combos Map.empty (all_center_sections env ! j) =
          Some \<lparr>front_clip = front_clip (?combos ! j), rear_clip = rear_clip (?combos ! j)\<rparr>"
    if "j < length (all_center_sections env)" for j
  proof -
    from that len have j: "j < length ?combos" by simp
    have "all_center_sections env ! j = center (?combos ! j)"
      using j by (simp flip: m)
    with store_assignments_nth[OF d j, of Map.empty] show ?thesis by simp
  qed
  moreover have "store_assignments ?combos Map.empty x = None"
    if "x \<notin> set (all_center_sections env)" for x
  proof -
    from that have "x \<notin> center ` set ?combos" by (simp flip: m)
    from store_assignments_other[OF this] show ?thesis by simp
  qed
  ultimately show ?thesis
    by (simp add: calculate_optimal_assignments_def run)
qed

lemma center_sections_loop_prefix:
  assumes "center_sections_loop w env (xs @ ys) st = Inr final"
  shows "\<exists>st'. center_sections_loop w env xs st = Inr st'"
  using assms by (cases "center_sections_loop w env xs st") (simp_all add: center_sections_loop_append)

lemma run_prefix:
  assumes "run_optimizer w env = Inr final"
  shows "\<exists>st. center_sections_loop w env (take k (all_center_sections env)) initial_state = Inr st"
proof -
  have "center_sections_loop w env (take k (all_center_sections env) @ drop k (all_center_sections env))
          initial_state = Inr final"
    using assms by (simp add: run_optimizer_alt)
  from center_sections_loop_prefix[OF this] show ?thesis .
qed

lemma assign_center_fresh_or_exhausted:
  assumes "assign_center w env cs st = Inr st'"
  shows "\<exists>f r sc. st' = add_combo st cs f r sc \<and>
           (f \<notin> used_front_clips st \<or>
            set (all_front_clips env) \<subseteq> used_front_clips st \<and> f = all_front_clips env ! 0) \<and>
           (r \<notin> used_rear_clips st \<or>
            set (all_rear_clips env) \<subseteq> used_rear_clips st \<and> r = all_rear_clips env ! 0)"
proof -
  let ?cands = "candidate_pairs (combined_score w) env st cs"
  define b where "b = front_clips_loop w env (used_front_clips st) (used_rear_clips st) cs
                (all_front_clips env)
                \<lparr>best_score = None, best_front = None, best_rear = None\<rparr>"
  have b: "b = keep_best ?cands no_best"
    by (simp add: b_def front_clips_loop_keep_best candidate_pairs_def no_best_def)
  show ?thesis
  proof (cases "truthy (best_front b) \<and> truthy (best_rear b)")
    case True
    then obtain bf br where bb: "best_front b = Some bf" "best_rear b = Some br"
      by (cases "best_front b"; cases "best_rear b") simp_all
    with True assms have st': "st' = add_combo st cs bf br (best_score b)"
      by (simp add: assign_center_def b_def[symmetric])
    have ne: "?cands \<noteq> []"
    proof
      assume "?cands = []"
      with b have "b = no_best" by simp
      with bb show False by (simp add: no_best_def)
    qed
    from keep_best_first_minimum[OF ne] obtain f r s where
      kb: "keep_best ?cands no_best = \<lparr>best_score = Some s, best_front = Some f, best_rear = Some r\<rparr>"
      and fm: "first_minimum ?cands (f, r, s)" by blast
    from kb b bb have eq: "bf = f" "br = r" by simp_all
    from first_minimum_mem[OF fm]
    have "(f, r, s) \<in> set (front_candidates (combined_score w) env (used_front_clips st)
                           (used_rear_clips st) cs (all_front_clips env))"
      by (simp add: candidate_pairs_def)
    from front_candidates_mem[OF this] have "f \<notin> used_front_clips st" "r \<notin> used_rear_clips st"
      by simp_all
    with st' eq show ?thesis by blast
  next
    case False
    then have "assign_center w env cs st = fallback env cs st"
      unfolding assign_center_def Let_def b_def[symmetric] by (simp only: if_False)
    with assms have fb: "fallback env cs st = Inr st'" by simp
    have ne: "all_front_clips env \<noteq> []" "all_rear_clips env \<noteq> []"
      using fb fallback_error[of env cs st] by auto
    from fallback_cases[OF ne, of cs st] fb obtain f r where
      "st' = add_combo st cs f r None"
      "if set (all_front_clips env) \<subseteq> used_front_clips st
            then f = all_front_clips env ! 0 else f \<notin> used_front_clips st"
      "if set (all_rear_clips env) \<subseteq> used_rear_clips st
            then r = all_rear_clips env ! 0 else r \<notin> used_rear_clips st"
      by auto
    then show ?thesis
      by (intro exI[of _ f] exI[of _ r] exI[of _ None]) (auto split: if_splits)
  qed
qed

lemma run_entry_fresh_or_exhausted:
  assumes run: "run_optimizer w env = Inr final"
    and j: "j < length (all_center_sections env)"
  shows "(front_clip (center_best_combos final ! j) \<in> front_clip ` set (take j (center_best_combos final)) \<longrightarrow>
            set (all_front_clips env) \<subseteq> front_clip ` set (take j (center_best_combos final)) \<and>
            front_clip (center_best_combos final ! j) = all_front_clips env ! 0) \<and>
         (rear_clip (center_best_combos final ! j) \<in> rear_clip ` set (take j (center_best_combos final)) \<longrightarrow>
            set (all_rear_clips env) \<subseteq> rear_clip ` set (take j (center_best_combos final)) \<and>
            rear_clip (center_best_combos final ! j) = all_rear_clips env ! 0)"
proof -
  let ?css = "all_center_sections env"
  from run_prefix[OF run] obtain st where
    pre: "center_sections_loop w env (take j ?css) initial_state = Inr st" by blast
  note rs = run_step[OF run j pre]
  from rs(3) rs(1) have uf: "used_front_clips st = front_clip ` set (take j (center_best_combos final))"
    and ur: "used_rear_clips st = rear_clip ` set (take j (center_best_combos final))"
    by (simp_all add: used_consistent_def)
  from assign_center_fresh_or_exhausted[OF rs(4)] obtain f r sc where
    eq: "add_combo st (?css ! j) (front_clip (center_best_combos final ! j))
                  (rear_clip (center_best_combos final ! j))
                  (score (center_best_combos final ! j)) = add_combo st (?css ! j) f r sc"
    and f: "f \<notin> used_front_clips st \<or>
            set (all_front_clips env) \<subseteq> used_front_clips st \<and> f = all_front_clips env ! 0"
    and r: "r \<notin> used_rear_clips st \<or>
            set (all_rear_clips env) \<subseteq> used_rear_clips st \<and> r = all_rear_clips env ! 0"
    by blast
  from eq have "front_clip (center_best_combos final ! j) = f" "rear_clip (center_best_combos final ! j) = r"
    by (simp_all add: add_combo_def)
  with f r show ?thesis unfolding uf ur by blast
qed

lemma no_repeat_if_enough:
  fixes xs :: "'a list" and g :: "'a \<Rightarrow> 'b"
  assumes rep: "\<And>j. j < length xs \<Longrightarrow> g (xs ! j) \<in> g ` set (take j xs) \<Longrightarrow> S \<subseteq> g ` set (take j xs)"
    and enough: "length xs \<le> card S"
  shows "distinct (map g xs)"
proof (rule ccontr)
  assume "\<not> distinct (map g xs)"
  then obtain i j where ij: "i < j" "j < length xs" "g (xs ! i) = g (xs ! j)"
    by (auto simp: distinct_conv_nth nat_neq_iff)
  then have "xs ! i \<in> set (take j xs)"
    by (metis in_set_conv_nth length_take min.absorb2 less_imp_le nth_take)
  with ij have "g (xs ! j) \<in> g ` set (take j xs)" by (metis imageI)
  from rep[OF ij(2) this] have "card S \<le> card (g ` set (take j xs))"
    by (intro card_mono) simp_all
  also have "\<dots> \<le> card (set (take j xs))" by (rule card_image_le) simp
  also have "\<dots> \<le> length (take j xs)" by (rule card_length)
  also have "\<dots> < length xs" using ij(2) by simp
  finally show False using enough by simp
qed

text \<open>
  C3 (amended). The run returns when both clip lists are non-empty, and the entry of the
  center section at position \<open>j\<close> of the sorted list repeats the front clip of an earlier
  entry only if every front clip is already in an earlier entry; the repeated clip is then
  the first front clip of the sorted list. The same holds for rear clips. So when there
  are at least as many front (rear) clips as center sections, no front (rear) clip appears
  in two entries.
\<close>

theorem clip_reused_only_when_exhausted:
  assumes fcs: "all_front_clips env \<noteq> []" and rcs: "all_rear_clips env \<noteq> []"
    and dist: "distinct (all_center_sections env)"
  shows "\<exists>a final. calculate_optimal_assignments w env = Inr a \<and> run_optimizer w env = Inr final \<and>
           (\<forall>j<length (all_center_sections env).
              a (all_center_sections env ! j) =
                Some \<lparr>front_clip = front_clip (center_best_combos final ! j),
                      rear_clip = rear_clip (center_best_combos final ! j)\<rparr> \<and>
              (front_clip (center_best_combos final ! j)
                 \<in> front_clip ` set (take j (center_best_combos final)) \<longrightarrow>
               set (all_front_clips env) \<subseteq> front_clip ` set (take j (center_best_combos final)) \<and>
               front_clip (center_best_combos final ! j) = all_front_clips env ! 0) \<and>
              (rear_clip (center_best_combos final ! j)
                 \<in> rear_clip ` set (take j (center_best_combos final)) \<longrightarrow>
               set (all_rear_clips env) \<subseteq> rear_clip ` set (take j (center_best_combos final)) \<and>
               rear_clip (center_best_combos final ! j) = all_rear_clips env ! 0)) \<and>
           (length (all_center_sections env) \<le> card (set (all_front_clips env)) \<longrightarrow>
              distinct (map front_clip (center_best_combos final))) \<and>
           (length (all_center_sections env) \<le> card (set (all_rear_clips env)) \<longrightarrow>
              distinct (map rear_clip (center_best_combos final)))"
proof -
  let ?css = "all_center_sections env"
  from center_sections_loop_total[OF fcs rcs, of w ?css initial_state]
  obtain final where run: "run_optimizer w env = Inr final"
    by (auto simp: run_optimizer_alt)
  let ?combos = "center_best_combos final"
  have len: "length ?combos = length ?css"
    using center_sections_loop_result[of w env ?css initial_state final] run
    by (auto simp: run_optimizer_alt initial_state_def dest: arg_cong[where f=length])
  from calculate_optimal_assignments_lookup[OF run dist] obtain a where
    a: "calculate_optimal_assignments w env = Inr a"
    and look: "\<forall>j<length ?css. a (?css ! j) =
                Some \<lparr>front_clip = front_clip (?combos ! j), rear_clip = rear_clip (?combos ! j)\<rparr>"
    by blast
  note fresh = run_entry_fresh_or_exhausted[OF run]
  have df: "distinct (map front_clip ?combos)" if "length ?css \<le> card (set (all_front_clips env))"
  proof (rule no_repeat_if_enough[where S = "set (all_front_clips env)"])
    show "length ?combos \<le> card (set (all_front_clips env))" using that len by simp
  next
    fix j assume "j < length ?combos"
      and "front_clip (?combos ! j) \<in> front_clip ` set (take j ?combos)"
    with fresh[of j] len show "set (all_front_clips env) \<subseteq> front_clip ` set (take j ?combos)"
      by simp
  qed
  have dr: "distinct (map rear_clip ?combos)" if "length ?css \<le> card (set (all_rear_clips env))"
  proof (rule no_repeat_if_enough[where S = "set (all_rear_clips env)"])
    show "length ?combos \<le> card (set (all_rear_clips env))" using that len by simp
  next
    fix j assume "j < length ?combos"
      and "rear_clip (?combos ! j) \<in> rear_clip ` set (take j ?combos)"
    with fresh[of j] len show "set (all_rear_clips env) \<subseteq> rear_clip ` set (take j ?combos)"
      by simp
  qed
  show ?thesis
  proof (intro exI[of _ a] exI[of _ final] conjI allI impI)
    show "calculate_optimal_assignments w env = Inr a" by (rule a)
    show "run_optimizer w env = Inr final" by (rule run)
  qed (use look fresh df dr in simp_all)
qed


theorem clip_reused_only_when_exhausted_witness:
  "all_front_clips scarce_env \<noteq> [] \<and> all_rear_clips scarce_env \<noteq> [] \<and>
   distinct (all_center_sections scarce_env) \<and> (1::nat) < length (all_center_sections scarce_env) \<and>
   (\<exists>final. run_optimizer default_weights scarce_env = Inr final \<and>
      front_clip (center_best_combos final ! 1) \<in> front_clip ` set (take 1 (center_best_combos final)) \<and>
      set (all_front_clips scarce_env) \<subseteq> front_clip ` set (take 1 (center_best_combos final)) \<and>
      front_clip (center_best_combos final ! 1) = all_front_clips scarce_env ! 0) \<and>
   all_front_clips example_env \<noteq> [] \<and> all_rear_clips example_env \<noteq> [] \<and>
   distinct (all_center_sections example_env) \<and>
   length (all_center_sections example_env) \<le> card (set (all_front_clips example_env)) \<and>
   (\<exists>final. run_optimizer default_weights example_env = Inr final \<and>
      distinct (map front_clip (center_best_combos final)))"
proof -
  have s1: "all_front_clips scarce_env \<noteq> []" and s2: "all_rear_clips scarce_env \<noteq> []"
    and s3: "distinct (all_center_sections scarce_env)"
    and s4: "(1::nat) < length (all_center_sections scarce_env)"
    by code_simp+
  have e1: "all_front_clips example_env \<noteq> []" and e2: "all_rear_clips example_env \<noteq> []"
    and e3: "distinct (all_center_sections example_env)"
    and e4: "length (all_center_sections example_env) \<le> card (set (all_front_clips example_env))"
    by code_simp+
  have run: "run_optimizer default_weights scarce_env =
      Inr \<lparr>center_best_combos =
             [\<lparr>front_clip = ''F1'', rear_clip = ''R1'', center = 1, score = Some 1\<rparr>,
              \<lparr>front_clip = ''F1'', rear_clip = ''R1'', center = 2, score = None\<rparr>],
           used_front_clips = {''F1''}, used_rear_clips = {''R1''}\<rparr>"
    by code_simp
  from clip_reused_only_when_exhausted[OF s1 s2 s3, of default_weights] obtain final where
    f: "run_optimizer default_weights scarce_env = Inr final"
    and imp: "\<forall>j<length (all_center_sections scarce_env).
      (front_clip (center_best_combos final ! j)
                 \<in> front_clip ` set (take j (center_best_combos final)) \<longrightarrow>
               set (all_front_clips scarce_env) \<subseteq> front_clip ` set (take j (center_best_combos final)) \<and>
               front_clip (center_best_combos final ! j) = all_front_clips scarce_env ! 0)"
    by blast
  from f run have prem: "front_clip (center_best_combos final ! 1)
                 \<in> front_clip ` set (take 1 (center_best_combos final))" by auto
  with imp s4 have scarce: "\<exists>final. run_optimizer default_weights scarce_env = Inr final \<and>
      front_clip (center_best_combos final ! 1) \<in> front_clip ` set (take 1 (center_best_combos final)) \<and>
      set (all_front_clips scarce_env) \<subseteq> front_clip ` set (take 1 (center_best_combos final)) \<and>
      front_clip (center_best_combos final ! 1) = all_front_clips scarce_env ! 0"
    using f by blast
  from clip_reused_only_when_exhausted[OF e1 e2 e3, of default_weights] e4
  have ex: "\<exists>final. run_optimizer default_weights example_env = Inr final \<and>
      distinct (map front_clip (center_best_combos final))"
    by blast
  from s1 s2 s3 s4 scarce e1 e2 e3 e4 ex show ?thesis by blast
qed

text \<open>
  C3 as stated fails: with one front clip and one rear clip shared by two center sections
  and no manual override, the run gives both center sections the clips F1 and R1.
\<close>

theorem no_reuse_counterexample:
  "assignment_entries (calculate_optimal_assignments default_weights scarce_env) [1, 2] =
     Inr [Some \<lparr>front_clip = ''F1'', rear_clip = ''R1''\<rparr>,
          Some \<lparr>front_clip = ''F1'', rear_clip = ''R1''\<rparr>]"
  by code_simp

lemma unique_set [simp]: "set (unique xs) = set xs"
  by (simp add: unique_def)

lemma unique_distinct [simp]: "distinct (unique xs)"
  by (simp add: unique_def)

lemma selector_env_sorted:
  fixes results :: "'s::linorder ranked_row list"
  shows "sorted (all_center_sections (selector_env results front rear)) \<and>
         distinct (all_center_sections (selector_env results front rear)) \<and>
         sorted (all_front_clips (selector_env results front rear)) \<and>
         distinct (all_front_clips (selector_env results front rear)) \<and>
         sorted (all_rear_clips (selector_env results front rear)) \<and>
         distinct (all_rear_clips (selector_env results front rear))"
  by (simp add: selector_env_def)

lemma sorted_distinct_nth_less:
  fixes xs :: "'a::linorder list"
  assumes "sorted xs" and "distinct xs" and "i < j" and "j < length xs"
  shows "xs ! i < xs ! j"
proof -
  from assms have "xs ! i \<le> xs ! j" by (simp add: sorted_nth_mono)
  moreover from assms have "xs ! i \<noteq> xs ! j" by (simp add: nth_eq_iff_index_eq)
  ultimately show ?thesis by simp
qed

lemma sorted_first_least:
  fixes xs :: "'a::linorder list"
  assumes "sorted xs" and "c \<in> set xs"
  shows "xs ! 0 \<le> c"
proof -
  from assms(2) obtain k where "k < length xs" "xs ! k = c" by (auto simp: in_set_conv_nth)
  with assms(1) sorted_nth_mono[of xs 0 k] show ?thesis by auto
qed

lemma first_minimum_unique:
  assumes "first_minimum cands c" and "first_minimum cands c'"
  shows "c = c'"
proof -
  from assms(1) obtain i where i: "i < length cands" "cands ! i = c"
    and mn: "\<forall>j<length cands. snd (snd c) \<le> snd (snd (cands ! j))"
    and st: "\<forall>j<i. snd (snd c) < snd (snd (cands ! j))"
    by (auto simp: first_minimum_def)
  from assms(2) obtain i' where i': "i' < length cands" "cands ! i' = c'"
    and mn': "\<forall>j<length cands. snd (snd c') \<le> snd (snd (cands ! j))"
    and st': "\<forall>j<i'. snd (snd c') < snd (snd (cands ! j))"
    by (auto simp: first_minimum_def)
  have "i = i'"
  proof (rule ccontr)
    assume "i \<noteq> i'"
    then consider "i < i'" | "i' < i" by (auto simp: nat_neq_iff)
    then show False
    proof cases
      case 1
      with st' i have "snd (snd c') < snd (snd c)" by auto
      moreover from mn i' have "snd (snd c) \<le> snd (snd c')" by auto
      ultimately show False by simp
    next
      case 2
      with st i' have "snd (snd c) < snd (snd c')" by auto
      moreover from mn' i have "snd (snd c') \<le> snd (snd c)" by auto
      ultimately show False by simp
    qed
  qed
  with i i' show ?thesis by simp
qed

lemma concat_map_all_nil: "(\<And>x. x \<in> set xs \<Longrightarrow> F x = []) \<Longrightarrow> concat (map F xs) = []"
  by (induction xs) simp_all

lemma front_candidates_all_used:
  assumes "set fcs \<subseteq> used_front"
  shows "front_candidates sc env used_front used_rear cs fcs = []"
  unfolding front_candidates_def
proof (rule concat_map_all_nil)
  fix fc assume "fc \<in> set fcs"
  with assms have "fc \<in> used_front" by blast
  then show "(if fc \<in> used_front then []
        else case front_rows env cs fc of [] \<Rightarrow> []
             | row # x \<Rightarrow> rear_candidates sc env used_rear cs fc (front_LF_Rank row)
                   (front_RF_Rank row) (all_rear_clips env)) = []"
    by (simp only: if_True)
qed

lemma rear_candidates_all_used:
  assumes "set rcs \<subseteq> used_rear"
  shows "rear_candidates sc env used_rear cs fc lfr rfr rcs = []"
  unfolding rear_candidates_def
proof (rule concat_map_all_nil)
  fix rc assume "rc \<in> set rcs"
  with assms have "rc \<in> used_rear" by blast
  then show "(if rc \<in> used_rear then []
        else case rear_rows env cs rc of [] \<Rightarrow> []
             | row # x \<Rightarrow> [(fc, rc, sc lfr rfr (rear_LR_Rank row) (rear_RR_Rank row))]) = []"
    by (simp only: if_True)
qed

lemma front_candidates_rear_all_used:
  assumes "set (all_rear_clips env) \<subseteq> used_rear"
  shows "front_candidates sc env used_front used_rear cs fcs = []"
  unfolding front_candidates_def
proof (rule concat_map_all_nil)
  fix fc
  show "(if fc \<in> used_front then []
        else case front_rows env cs fc of [] \<Rightarrow> []
             | row # x \<Rightarrow> rear_candidates sc env used_rear cs fc (front_LF_Rank row)
                   (front_RF_Rank row) (all_rear_clips env)) = []"
    by (cases "front_rows env cs fc") (simp_all add: rear_candidates_all_used[OF assms])
qed

lemma fallback_when_front_exhausted:
  assumes "all_front_clips env \<noteq> []" and "all_rear_clips env \<noteq> []"
    and "set (all_front_clips env) \<subseteq> used_front_clips st"
  shows "\<exists>r. assign_center w env cs st = Inr (add_combo st cs (all_front_clips env ! 0) r None)"
proof -
  from assms(3) have "candidate_pairs (combined_score w) env st cs = []"
    by (simp add: candidate_pairs_def front_candidates_all_used)
  from assign_center_fallback[OF this] fallback_cases[OF assms(1,2), of cs st] assms(3)
  show ?thesis by auto
qed

lemma fallback_when_rear_exhausted:
  assumes "all_front_clips env \<noteq> []" and "all_rear_clips env \<noteq> []"
    and "set (all_rear_clips env) \<subseteq> used_rear_clips st"
  shows "\<exists>f. assign_center w env cs st = Inr (add_combo st cs f (all_rear_clips env ! 0) None)"
proof -
  from assms(3) have "candidate_pairs (combined_score w) env st cs = []"
    by (simp add: candidate_pairs_def front_candidates_rear_all_used)
  from assign_center_fallback[OF this] fallback_cases[OF assms(1,2), of cs st] assms(3)
  show ?thesis by auto
qed

section \<open>Properties of the Selector tab\<close>

lemma fallback_degenerate:
  assumes "all_front_clips env = [] \<or> all_rear_clips env = []"
  shows "assign_center w env cs st = Inl IndexError"
proof -
  have "candidate_pairs (combined_score w) env st cs = []"
  proof (cases "all_front_clips env = []")
    case True
    then show ?thesis by (simp add: candidate_pairs_def front_candidates_def)
  next
    case False
    with assms have "set (all_rear_clips env) \<subseteq> used_rear_clips st" by simp
    then show ?thesis by (simp add: candidate_pairs_def front_candidates_rear_all_used)
  qed
  from assign_center_fallback[OF this] fallback_error[OF assms] show ?thesis by simp
qed

lemma run_optimizer_degenerate:
  assumes "all_front_clips env = [] \<or> all_rear_clips env = []"
  shows "run_optimizer w env =
           (if all_center_sections env = [] then Inr initial_state else Inl IndexError)"
  by (cases "all_center_sections env")
     (simp_all add: run_optimizer_alt fallback_degenerate[OF assms])

lemma calculate_error_independent:
  assumes "calculate_optimal_assignments w env = Inl e"
  shows "calculate_optimal_assignments w' env = Inl e"
proof (cases "all_front_clips env = [] \<or> all_rear_clips env = []")
  case True
  from assms run_optimizer_degenerate[OF True] show ?thesis
    by (auto simp: calculate_optimal_assignments_def split: if_splits)
next
  case False
  with center_sections_loop_total[of env w "all_center_sections env" initial_state]
  obtain st where "run_optimizer w env = Inr st" by (auto simp: run_optimizer_alt)
  with assms show ?thesis by (simp add: calculate_optimal_assignments_def)
qed

section \<open>Properties of the Calculate button\<close>

lemma merge_inner_empty_iff:
  "merge_inner front rear = [] \<longleftrightarrow>
     front_center_section_col ` set front \<inter> rear_center_section_col ` set rear = {}"
proof -
  have "merge_inner front rear = [] \<longleftrightarrow>
          (\<forall>f\<in>set front. \<forall>r\<in>set rear. rear_center_section_col r \<noteq> front_center_section_col f)"
    by (simp add: merge_inner_def filter_empty_conv)
  also have "\<dots> \<longleftrightarrow> front_center_section_col ` set front \<inter> rear_center_section_col ` set rear = {}"
  proof
    assume a: "\<forall>f\<in>set front. \<forall>r\<in>set rear. rear_center_section_col r \<noteq> front_center_section_col f"
    show "front_center_section_col ` set front \<inter> rear_center_section_col ` set rear = {}"
    proof (rule ccontr)
      assume "front_center_section_col ` set front \<inter> rear_center_section_col ` set rear \<noteq> {}"
      then obtain f r where "f \<in> set front" "r \<in> set rear"
        "front_center_section_col f = rear_center_section_col r" by blast
      with a show False by (metis)
    qed
  next
    assume e: "front_center_section_col ` set front \<inter> rear_center_section_col ` set rear = {}"
    show "\<forall>f\<in>set front. \<forall>r\<in>set rear. rear_center_section_col r \<noteq> front_center_section_col f"
    proof (intro ballI notI)
      fix f r assume "f \<in> set front" "r \<in> set rear"
        "rear_center_section_col r = front_center_section_col f"
      then have "front_center_section_col f \<in> front_center_section_col ` set front \<inter> rear_center_section_col ` set rear"
        by (metis IntI imageI)
      with e show False by simp
    qed
  qed
  finally show ?thesis .
qed

lemma nonempty_join_completes:
  assumes "merge_inner (multi_front_calc cfg df_front df_rear) (multi_rear_calc cfg df_front df_rear) \<noteq> []"
  shows "calculate True cfg df df_front df_rear st =
           (Completed, st\<lparr>df_front_calc := Some (multi_front_calc cfg df_front df_rear),
                           df_rear_calc := Some (multi_rear_calc cfg df_front df_rear),
                           results_df := Some (add_ranks (merge_inner (multi_front_calc cfg df_front df_rear)
                                            (multi_rear_calc cfg df_front df_rear)))\<rparr>)"
  using assms by (simp add: calculate_def Let_def)

section \<open>Properties of the weighted scores\<close>

lemma weighted_score_nth:
  assumes "i < length ls" and "length rs = length ls"
  shows "map (\<lambda>(l, r). l * 2 + r * 1) (zip ls rs) ! i = 2 * ls ! i + (rs ! i :: nat)"
  using assms by simp

lemma add_ranks_front_columns:
  "map Front_Weighted_Score (add_ranks df) =
     map (\<lambda>(l, r). l * 2 + r * 1)
       (zip (rank_min False (map LF_Damper_Length df)) (rank_min False (map RF_Damper_Length df)))"
  "map Front_Rank (add_ranks df) = rank_min True (map Front_Weighted_Score (add_ranks df))"
proof -
  show 1: "map Front_Weighted_Score (add_ranks df) =
     map (\<lambda>(l, r). l * 2 + r * 1)
       (zip (rank_min False (map LF_Damper_Length df)) (rank_min False (map RF_Damper_Length df)))"
    by (rule nth_equalityI) (simp_all add: add_ranks_def Let_def length_rank_min)
  show "map Front_Rank (add_ranks df) = rank_min True (map Front_Weighted_Score (add_ranks df))"
    unfolding 1
    by (rule nth_equalityI) (simp_all add: add_ranks_def Let_def length_rank_min)
qed

lemma add_front_ranks_columns:
  "length (add_front_ranks df) = length df"
  "map front_Front_Weighted_Score (add_front_ranks df) =
     map (\<lambda>(l, r). l * 2 + r * 1)
       (zip (map front_LF_Rank (add_front_ranks df)) (map front_RF_Rank (add_front_ranks df)))"
  "map front_Front_Rank (add_front_ranks df) =
     rank_min True (map front_Front_Weighted_Score (add_front_ranks df))"
proof -
  show l: "length (add_front_ranks df) = length df" by (simp add: add_front_ranks_def Let_def)
  have lf: "map front_LF_Rank (add_front_ranks df) = rank_min False (map front_LF_Damper_Length df)"
    by (rule nth_equalityI) (simp_all add: add_front_ranks_def Let_def length_rank_min)
  have rf: "map front_RF_Rank (add_front_ranks df) = rank_min False (map front_RF_Damper_Length df)"
    by (rule nth_equalityI) (simp_all add: add_front_ranks_def Let_def length_rank_min)
  show 1: "map front_Front_Weighted_Score (add_front_ranks df) =
     map (\<lambda>(l, r). l * 2 + r * 1)
       (zip (map front_LF_Rank (add_front_ranks df)) (map front_RF_Rank (add_front_ranks df)))"
    unfolding lf rf
    by (rule nth_equalityI) (simp_all add: add_front_ranks_def Let_def length_rank_min)
  show "map front_Front_Rank (add_front_ranks df) =
     rank_min True (map front_Front_Weighted_Score (add_front_ranks df))"
    unfolding 1 lf rf
    by (rule nth_equalityI) (simp_all add: add_front_ranks_def Let_def length_rank_min)
qed

lemma add_rear_ranks_columns:
  "length (add_rear_ranks df) = length df"
  "map rear_Rear_Weighted_Score (add_rear_ranks df) =
     map (\<lambda>(l, r). l * 2 + r * 1)
       (zip (map rear_LR_Rank (add_rear_ranks df)) (map rear_RR_Rank (add_rear_ranks df)))"
  "map rear_Rear_Rank (add_rear_ranks df) =
     rank_min True (map rear_Rear_Weighted_Score (add_rear_ranks df))"
proof -
  show l: "length (add_rear_ranks df) = length df" by (simp add: add_rear_ranks_def Let_def)
  have lf: "map rear_LR_Rank (add_rear_ranks df) = rank_min False (map rear_LR_Damper_Length df)"
    by (rule nth_equalityI) (simp_all add: add_rear_ranks_def Let_def length_rank_min)
  have rf: "map rear_RR_Rank (add_rear_ranks df) = rank_min False (map rear_RR_Damper_Length df)"
    by (rule nth_equalityI) (simp_all add: add_rear_ranks_def Let_def length_rank_min)
  show 1: "map rear_Rear_Weighted_Score (add_rear_ranks df) =
     map (\<lambda>(l, r). l * 2 + r * 1)
       (zip (map rear_LR_Rank (add_rear_ranks df)) (map rear_RR_Rank (add_rear_ranks df)))"
    unfolding lf rf
    by (rule nth_equalityI) (simp_all add: add_rear_ranks_def Let_def length_rank_min)
  show "map rear_Rear_Rank (add_rear_ranks df) =
     rank_min True (map rear_Rear_Weighted_Score (add_rear_ranks df))"
    unfolding 1 lf rf
    by (rule nth_equalityI) (simp_all add: add_rear_ranks_def Let_def length_rank_min)
qed

lemma rank_min_ascending:
  fixes xs :: "nat list"
  assumes "i < length xs" and "j < length xs"
  shows "min_rank_ascending xs (rank_min True xs) i j"
proof -
  have strict: "rank_min True xs ! i < rank_min True xs ! j" if "xs ! i < xs ! j"
  proof -
    have "length (filter (\<lambda>y. y < xs ! i) xs) < length (filter (\<lambda>y. y < xs ! j) xs)"
    proof (rule length_filter_strict_mono)
      show "xs ! i \<in> set xs" using assms(1) by simp
    qed (use that in auto)
    with assms show ?thesis by (simp add: rank_min_asc_nth)
  qed
  have eq: "rank_min True xs ! i = rank_min True xs ! j" if "xs ! i = xs ! j"
    using that assms by (simp add: rank_min_asc_nth)
  from strict eq assms show ?thesis
    by (simp add: min_rank_ascending_def rank_min_asc_nth)
qed

lemma single_center_rankings_nth:
  fixes results :: "'s::linorder ranked_row list"
  assumes "g < length (single_center_rankings results)"
  shows "single_Rear_Rank (single_center_rankings results ! g) =
           (mean_LR_Rank (single_center_rankings results ! g) +
            mean_RR_Rank (single_center_rankings results ! g)) / 2"
    and "mean_LR_Rank (single_center_rankings results ! g) =
           mean (map (\<lambda>r. real (LR_Rank r))
                  (filter (\<lambda>r. res_center r = group_center (single_center_rankings results ! g)) results))"
    and "mean_RR_Rank (single_center_rankings results ! g) =
           mean (map (\<lambda>r. real (RR_Rank r))
                  (filter (\<lambda>r. res_center r = group_center (single_center_rankings results ! g)) results))"
  using assms by (simp_all add: single_center_rankings_def Let_def)

text \<open>
  C5 (amended). Every record of the ranked working set has the front weighted score
  \<open>2 * LF_Rank + 1 * RF_Rank\<close>, and its front rank is the ascending min-method rank of
  that score. In dual-sheet mode the rows of the rear sheet have the rear weighted score
  \<open>2 * LR_Rank + 1 * RR_Rank\<close> of their ranks within the rear sheet, with the rear rank
  the ascending min-method rank of that score, and the rows of the front sheet mirror
  this. In single-sheet mode no rear weighted score is computed: the roll-up of a center
  section has the rear rank \<open>(mean LR_Rank + mean RR_Rank) / 2\<close> of its records.
\<close>

theorem weighted_scores_and_reranks:
  fixes results :: "'s::linorder ranked_row list"
  assumes "i < length df" and "j < length df"
    and "k < length rear" and "l < length rear"
    and "m < length front" and "n < length front"
    and "g < length (single_center_rankings results)"
  shows "Front_Weighted_Score (add_ranks df ! i) =
           2 * LF_Rank (add_ranks df ! i) + 1 * RF_Rank (add_ranks df ! i) \<and>
         min_rank_ascending (map Front_Weighted_Score (add_ranks df))
           (map Front_Rank (add_ranks df)) i j \<and>
         rear_Rear_Weighted_Score (add_rear_ranks rear ! k) =
           2 * rear_LR_Rank (add_rear_ranks rear ! k) + 1 * rear_RR_Rank (add_rear_ranks rear ! k) \<and>
         min_rank_ascending (map rear_Rear_Weighted_Score (add_rear_ranks rear))
           (map rear_Rear_Rank (add_rear_ranks rear)) k l \<and>
         front_Front_Weighted_Score (add_front_ranks front ! m) =
           2 * front_LF_Rank (add_front_ranks front ! m) + 1 * front_RF_Rank (add_front_ranks front ! m) \<and>
         min_rank_ascending (map front_Front_Weighted_Score (add_front_ranks front))
           (map front_Front_Rank (add_front_ranks front)) m n \<and>
         single_Rear_Rank (single_center_rankings results ! g) =
           (mean (map (\<lambda>r. real (LR_Rank r))
                  (filter (\<lambda>r. res_center r = group_center (single_center_rankings results ! g)) results)) +
            mean (map (\<lambda>r. real (RR_Rank r))
                  (filter (\<lambda>r. res_center r = group_center (single_center_rankings results ! g)) results))) / 2"
proof -
  have a: "Front_Weighted_Score (add_ranks df ! i) =
           2 * LF_Rank (add_ranks df ! i) + 1 * RF_Rank (add_ranks df ! i)"
    using assms(1) by (simp add: add_ranks_def Let_def length_rank_min)
  have b: "min_rank_ascending (map Front_Weighted_Score (add_ranks df))
           (map Front_Rank (add_ranks df)) i j"
    unfolding add_ranks_front_columns(2)
    by (rule rank_min_ascending) (simp_all add: length_add_ranks assms)
  have c: "rear_Rear_Weighted_Score (add_rear_ranks rear ! k) =
           2 * rear_LR_Rank (add_rear_ranks rear ! k) + 1 * rear_RR_Rank (add_rear_ranks rear ! k)"
    using assms(3) by (simp add: add_rear_ranks_def Let_def length_rank_min)
  have d: "min_rank_ascending (map rear_Rear_Weighted_Score (add_rear_ranks rear))
           (map rear_Rear_Rank (add_rear_ranks rear)) k l"
    unfolding add_rear_ranks_columns(3)
    by (rule rank_min_ascending) (simp_all add: add_rear_ranks_columns(1) assms)
  have e: "front_Front_Weighted_Score (add_front_ranks front ! m) =
           2 * front_LF_Rank (add_front_ranks front ! m) + 1 * front_RF_Rank (add_front_ranks front ! m)"
    using assms(5) by (simp add: add_front_ranks_def Let_def length_rank_min)
  have f: "min_rank_ascending (map front_Front_Weighted_Score (add_front_ranks front))
           (map front_Front_Rank (add_front_ranks front)) m n"
    unfolding add_front_ranks_columns(3)
    by (rule rank_min_ascending) (simp_all add: add_front_ranks_columns(1) assms)
  note g = single_center_rankings_nth[OF assms(7)]
  from a b c d e f show ?thesis unfolding g(1) g(2) g(3) by blast
qed

theorem weighted_scores_and_reranks_witness:
  "(0::nat) < length rollup_results \<and> (1::nat) < length rollup_results \<and>
   (0::nat) < length example_rear \<and> (1::nat) < length example_rear \<and>
   (0::nat) < length example_front \<and> (1::nat) < length example_front \<and>
   (0::nat) < length (single_center_rankings (add_ranks rollup_results)) \<and>
   rear_Rear_Weighted_Score (add_rear_ranks example_rear ! 0) =
     2 * rear_LR_Rank (add_rear_ranks example_rear ! 0) + 1 * rear_RR_Rank (add_rear_ranks example_rear ! 0) \<and>
   min_rank_ascending (map rear_Rear_Weighted_Score (add_rear_ranks example_rear))
     (map rear_Rear_Rank (add_rear_ranks example_rear)) 0 1 \<and>
   map rear_Rear_Weighted_Score (add_rear_ranks example_rear) ! 0
     < map rear_Rear_Weighted_Score (add_rear_ranks example_rear) ! 1 \<and>
   min_rank_ascending (map Front_Weighted_Score (add_ranks rollup_results))
     (map Front_Rank (add_ranks rollup_results)) 0 1"
proof -
  have h: "(0::nat) < length rollup_results" "(1::nat) < length rollup_results"
    "(0::nat) < length example_rear" "(1::nat) < length example_rear"
    "(0::nat) < length example_front" "(1::nat) < length example_front"
    "(0::nat) < length (single_center_rankings (add_ranks rollup_results))"
    by code_simp+
  have p: "map rear_Rear_Weighted_Score (add_rear_ranks example_rear) ! 0
     < map rear_Rear_Weighted_Score (add_rear_ranks example_rear) ! 1"
    by code_simp
  from weighted_scores_and_reranks[OF h] h p show ?thesis by blast
qed

text \<open>
  C5 as stated fails in single-sheet mode: of two records, each alone in its center
  section, with LR ranks 1 and 2 and RR ranks 2 and 1, the specification gives the rear
  weighted scores 4 and 5 and the rear ranks 1 and 2, but the only rear rank the
  single-sheet mode computes, that of the roll-up, is 3/2 for both.
\<close>

theorem single_sheet_rear_rank_counterexample:
  "map res_center (add_ranks rollup_results) = [1, 2] \<and>
   map spec_rear_weighted_score (add_ranks rollup_results) = [4, 5] \<and>
   spec_rear_rank (add_ranks rollup_results) = [1, 2] \<and>
   map group_center (single_center_rankings (add_ranks rollup_results)) = [1, 2] \<and>
   map single_Rear_Rank (single_center_rankings (add_ranks rollup_results)) = [3 / 2, 3 / 2]"
  by code_simp

section \<open>The pair committed for a center section\<close>

text \<open>
  C2 (amended). When the optimizer reaches a center section for which some pair of unused
  clips has rank rows, the pair it commits for that center section is a candidate pair
  with the least score as the optimizer computes it, in double precision with every
  operation rounded, and every candidate met before it in the nested iteration has a
  strictly greater computed score: the first pair met wins among equal computed scores.
  The run returns, and the committed pair is the entry of the center section in the
  returned assignment. Clip identifiers are non-empty strings.
\<close>

theorem committed_pair_minimizes_computed_score:
  assumes names: "[] \<notin> set (all_front_clips env)" "[] \<notin> set (all_rear_clips env)"
    and dist: "distinct (all_center_sections env)"
    and k: "k < length (all_center_sections env)"
    and pre: "center_sections_loop w env (take k (all_center_sections env)) initial_state = Inr st"
    and cands: "candidate_pairs (combined_score w) env st (all_center_sections env ! k) \<noteq> []"
  shows "\<exists>a f r s. calculate_optimal_assignments w env = Inr a \<and>
           a (all_center_sections env ! k) = Some \<lparr>front_clip = f, rear_clip = r\<rparr> \<and>
           first_minimum (candidate_pairs (combined_score w) env st (all_center_sections env ! k))
             (f, r, s)"
proof -
  let ?cs = "all_center_sections env ! k"
  from candidates_nonempty_clips[OF cands]
    center_sections_loop_total[of env w "all_center_sections env" initial_state]
  obtain final where run: "run_optimizer w env = Inr final"
    by (auto simp: run_optimizer_alt)
  from assign_center_commit[OF names cands] obtain f r s where
    a: "assign_center w env ?cs st = Inr (add_combo st ?cs f r (Some s))"
    and fm: "first_minimum (candidate_pairs (combined_score w) env st ?cs) (f, r, s)" by blast
  from run_step(4)[OF run k pre] a have
    "add_combo st ?cs f r (Some s) = add_combo st ?cs (front_clip (center_best_combos final ! k))
                  (rear_clip (center_best_combos final ! k))
                  (score (center_best_combos final ! k))" by simp
  then have fr: "front_clip (center_best_combos final ! k) = f" "rear_clip (center_best_combos final ! k) = r"
    by (simp_all add: add_combo_def)
  from calculate_optimal_assignments_lookup[OF run dist] k obtain a where
    "calculate_optimal_assignments w env = Inr a"
    "a ?cs = Some \<lparr>front_clip = f, rear_clip = r\<rparr>"
    by (auto simp: fr)
  with fm show ?thesis by blast
qed

theorem committed_pair_minimizes_computed_score_witness:
  "[] \<notin> set (all_front_clips example_env) \<and> [] \<notin> set (all_rear_clips example_env) \<and>
   distinct (all_center_sections example_env) \<and>
   (1::nat) < length (all_center_sections example_env) \<and>
   center_sections_loop default_weights example_env (take 1 (all_center_sections example_env))
     initial_state = Inr example_state \<and>
   candidate_pairs (combined_score default_weights) example_env example_state
     (all_center_sections example_env ! 1) = [(''F2'', ''R2'', 9 / 2), (''F3'', ''R2'', 9 / 2)] \<and>
   (\<exists>a. calculate_optimal_assignments default_weights example_env = Inr a \<and>
        a 2 = Some \<lparr>front_clip = ''F2'', rear_clip = ''R2''\<rparr>)"
proof -
  have h1: "[] \<notin> set (all_front_clips example_env)" by code_simp
  have h2: "[] \<notin> set (all_rear_clips example_env)" by code_simp
  have h3: "distinct (all_center_sections example_env)" by code_simp
  have h4: "(1::nat) < length (all_center_sections example_env)" by code_simp
  have h5: "center_sections_loop default_weights example_env
              (take 1 (all_center_sections example_env)) initial_state = Inr example_state"
    by code_simp
  have h6: "candidate_pairs (combined_score default_weights) example_env example_state
              (all_center_sections example_env ! 1) = [(''F2'', ''R2'', 9 / 2), (''F3'', ''R2'', 9 / 2)]"
    by code_simp
  have cs: "all_center_sections example_env ! 1 = 2" by code_simp
  from h6 have h6': "candidate_pairs (combined_score default_weights) example_env example_state
              (all_center_sections example_env ! 1) \<noteq> []" by simp
  from committed_pair_minimizes_computed_score[OF h1 h2 h3 h4 h5 h6'] obtain a f r s where
    a: "calculate_optimal_assignments default_weights example_env = Inr a"
       "a (all_center_sections example_env ! 1) = Some \<lparr>front_clip = f, rear_clip = r\<rparr>"
    and fm: "first_minimum [(''F2'', ''R2'', 9 / 2), (''F3'', ''R2'', 9 / 2)] (f, r, s)"
    unfolding h6 by blast
  from fm have fr: "f = ''F2''" "r = ''R2''"
    by (auto simp: first_minimum_def less_Suc_eq)
  from a(2) have "a 2 = Some \<lparr>front_clip = ''F2'', rear_clip = ''R2''\<rparr>"
    unfolding cs fr .
  with a(1) have "\<exists>a. calculate_optimal_assignments default_weights example_env = Inr a \<and>
        a 2 = Some \<lparr>front_clip = ''F2'', rear_clip = ''R2''\<rparr>"
    by blast
  with h1 h2 h3 h4 h5 h6 show ?thesis by blast
qed

text \<open>
  C2 as stated fails: with the weights 20, 20, 30 and 30 the pairs F1/R1 and F2/R1 of
  center section 1 have the same weighted combination 180, and F1/R1 is met first, but
  the computed scores are 1.8000000000000003 for F1/R1 and 1.8 for F2/R1, and the
  optimizer commits F2/R1.
\<close>

theorem exact_tie_counterexample:
  "all_center_sections tie_env = [1] \<and>
   candidate_pairs (weighted_combination tie_weights) tie_env initial_state 1 =
     [(''F1'', ''R1'', 180), (''F2'', ''R1'', 180)] \<and>
   candidate_pairs (combined_score tie_weights) tie_env initial_state 1 =
     [(''F1'', ''R1'', 4053239664633447 / 2251799813685248),
      (''F2'', ''R1'', 8106479329266893 / 4503599627370496)] \<and>
   assignment_entries (calculate_optimal_assignments tie_weights tie_env) [1] =
     Inr [Some \<lparr>front_clip = ''F2'', rear_clip = ''R1''\<rparr>]"
  by code_simp

section \<open>Order of processing\<close>

text \<open>
  C10. The Selector tab hands the optimizer the center sections and the clips of each axle
  as strictly ascending lists, and the optimizer makes its entries in the order of the
  center section list. When a center section reached at position \<open>i\<close> has the pair
  \<open>(f, r)\<close> as the first minimum of its candidates under the score the optimizer
  computes, it receives \<open>f\<close> and \<open>r\<close>; a center
  section with a greater identifier, processed later, has \<open>f\<close> (or \<open>r\<close>) in its entry only
  if all clips of that axle were used before its turn. When all clips of an axle are used,
  the entry gets the first clip of the sorted list of that axle, which is its least clip
  and is already used.
\<close>

theorem optimizer_order_first_pick_and_fallback:
  fixes results :: "'s::linorder ranked_row list"
  assumes env: "env = selector_env results front rear"
  shows "sorted (all_center_sections env) \<and> distinct (all_center_sections env) \<and>
         sorted (all_front_clips env) \<and> distinct (all_front_clips env) \<and>
         sorted (all_rear_clips env) \<and> distinct (all_rear_clips env) \<and>
         (\<forall>final. run_optimizer w env = Inr final \<longrightarrow>
            map center (center_best_combos final) = all_center_sections env) \<and>
         (\<forall>i j st f r s.
            [] \<notin> set (all_front_clips env) \<and> [] \<notin> set (all_rear_clips env) \<and>
            i < j \<and> j < length (all_center_sections env) \<and>
            center_sections_loop w env (take i (all_center_sections env)) initial_state = Inr st \<and>
            first_minimum (candidate_pairs (combined_score w) env st (all_center_sections env ! i))
              (f, r, s) \<longrightarrow>
            all_center_sections env ! i < all_center_sections env ! j \<and>
            (\<exists>a final. calculate_optimal_assignments w env = Inr a \<and>
               run_optimizer w env = Inr final \<and>
               a (all_center_sections env ! i) = Some \<lparr>front_clip = f, rear_clip = r\<rparr> \<and>
               (front_clip (center_best_combos final ! j) = f \<longrightarrow>
                  set (all_front_clips env) \<subseteq> front_clip ` set (take j (center_best_combos final))) \<and>
               (rear_clip (center_best_combos final ! j) = r \<longrightarrow>
                  set (all_rear_clips env) \<subseteq> rear_clip ` set (take j (center_best_combos final))))) \<and>
         (\<forall>cs st. all_front_clips env \<noteq> [] \<and> all_rear_clips env \<noteq> [] \<and>
            set (all_front_clips env) \<subseteq> used_front_clips st \<longrightarrow>
            (\<exists>r. assign_center w env cs st = Inr (add_combo st cs (all_front_clips env ! 0) r None)) \<and>
            all_front_clips env ! 0 \<in> used_front_clips st \<and>
            (\<forall>c\<in>set (all_front_clips env). all_front_clips env ! 0 \<le> c)) \<and>
         (\<forall>cs st. all_front_clips env \<noteq> [] \<and> all_rear_clips env \<noteq> [] \<and>
            set (all_rear_clips env) \<subseteq> used_rear_clips st \<longrightarrow>
            (\<exists>f. assign_center w env cs st = Inr (add_combo st cs f (all_rear_clips env ! 0) None)) \<and>
            all_rear_clips env ! 0 \<in> used_rear_clips st \<and>
            (\<forall>c\<in>set (all_rear_clips env). all_rear_clips env ! 0 \<le> c))"
proof -
  let ?css = "all_center_sections env"
  note srt = selector_env_sorted[of results front rear, folded env]
  have order: "\<forall>final. run_optimizer w env = Inr final \<longrightarrow>
            map center (center_best_combos final) = ?css"
    using center_sections_loop_result[of w env ?css initial_state]
    by (auto simp: run_optimizer_alt initial_state_def)
  have pick: "?css ! i < ?css ! j \<and>
            (\<exists>a final. calculate_optimal_assignments w env = Inr a \<and>
               run_optimizer w env = Inr final \<and>
               a (?css ! i) = Some \<lparr>front_clip = f, rear_clip = r\<rparr> \<and>
               (front_clip (center_best_combos final ! j) = f \<longrightarrow>
                  set (all_front_clips env) \<subseteq> front_clip ` set (take j (center_best_combos final))) \<and>
               (rear_clip (center_best_combos final ! j) = r \<longrightarrow>
                  set (all_rear_clips env) \<subseteq> rear_clip ` set (take j (center_best_combos final))))"
    if names: "[] \<notin> set (all_front_clips env)" "[] \<notin> set (all_rear_clips env)"
      and ij: "i < j" "j < length ?css"
      and pre: "center_sections_loop w env (take i ?css) initial_state = Inr st"
      and fm: "first_minimum (candidate_pairs (combined_score w) env st (?css ! i)) (f, r, s)"
    for i j st f r s
  proof -
    from ij have i: "i < length ?css" by simp
    from fm have c: "candidate_pairs (combined_score w) env st (?css ! i) \<noteq> []"
      by (auto simp: first_minimum_def)
    from candidates_nonempty_clips[OF c] center_sections_loop_total[of env w ?css initial_state]
    obtain final where run: "run_optimizer w env = Inr final"
      by (auto simp: run_optimizer_alt)
    let ?combos = "center_best_combos final"
    from assign_center_commit[OF names c] obtain f' r' s' where
      a: "assign_center w env (?css ! i) st = Inr (add_combo st (?css ! i) f' r' (Some s'))"
      and fm'': "first_minimum (candidate_pairs (combined_score w) env st (?css ! i)) (f', r', s')"
      by blast
    from first_minimum_unique[OF fm fm''] have eq: "f' = f" "r' = r" by simp_all
    from run_step(4)[OF run i pre] a have
      "add_combo st (?css ! i) f r (Some s') = add_combo st (?css ! i) (front_clip (?combos ! i))
                  (rear_clip (?combos ! i)) (score (?combos ! i))" by (simp add: eq)
    then have fr: "front_clip (?combos ! i) = f" "rear_clip (?combos ! i) = r"
      by (simp_all add: add_combo_def)
    from srt have dist: "distinct ?css" by simp
    from calculate_optimal_assignments_lookup[OF run dist] i obtain a where
      a: "calculate_optimal_assignments w env = Inr a"
         "a (?css ! i) = Some \<lparr>front_clip = f, rear_clip = r\<rparr>"
      by (auto simp: fr)
    from run_step(2)[OF run i pre] ij have len: "i < length (take j ?combos)" by simp
    then have mem: "?combos ! i \<in> set (take j ?combos)"
      by (metis nth_mem nth_take ij(1))
    from mem fr have "f \<in> front_clip ` set (take j ?combos)" "r \<in> rear_clip ` set (take j ?combos)"
      by (metis imageI)+
    with run_entry_fresh_or_exhausted[OF run ij(2)] have
      "front_clip (?combos ! j) = f \<longrightarrow> set (all_front_clips env) \<subseteq> front_clip ` set (take j ?combos)"
      "rear_clip (?combos ! j) = r \<longrightarrow> set (all_rear_clips env) \<subseteq> rear_clip ` set (take j ?combos)"
      by auto
    moreover from srt ij have "?css ! i < ?css ! j"
      by (intro sorted_distinct_nth_less) simp_all
    ultimately show ?thesis using a run by blast
  qed
  have fb_front: "(\<exists>r. assign_center w env cs st = Inr (add_combo st cs (all_front_clips env ! 0) r None)) \<and>
            all_front_clips env ! 0 \<in> used_front_clips st \<and>
            (\<forall>c\<in>set (all_front_clips env). all_front_clips env ! 0 \<le> c)"
    if "all_front_clips env \<noteq> []" "all_rear_clips env \<noteq> []"
       "set (all_front_clips env) \<subseteq> used_front_clips st" for cs st
  proof -
    from that(1) have "all_front_clips env ! 0 \<in> set (all_front_clips env)" by simp
    with that(3) have "all_front_clips env ! 0 \<in> used_front_clips st" by blast
    moreover from srt have "\<forall>c\<in>set (all_front_clips env). all_front_clips env ! 0 \<le> c"
      by (auto intro: sorted_first_least)
    ultimately show ?thesis using fallback_when_front_exhausted[OF that, of w cs] by blast
  qed
  have fb_rear: "(\<exists>f. assign_center w env cs st = Inr (add_combo st cs f (all_rear_clips env ! 0) None)) \<and>
            all_rear_clips env ! 0 \<in> used_rear_clips st \<and>
            (\<forall>c\<in>set (all_rear_clips env). all_rear_clips env ! 0 \<le> c)"
    if "all_front_clips env \<noteq> []" "all_rear_clips env \<noteq> []"
       "set (all_rear_clips env) \<subseteq> used_rear_clips st" for cs st
  proof -
    from that(2) have "all_rear_clips env ! 0 \<in> set (all_rear_clips env)" by simp
    with that(3) have "all_rear_clips env ! 0 \<in> used_rear_clips st" by blast
    moreover from srt have "\<forall>c\<in>set (all_rear_clips env). all_rear_clips env ! 0 \<le> c"
      by (auto intro: sorted_first_least)
    ultimately show ?thesis using fallback_when_rear_exhausted[OF that, of w cs] by blast
  qed
  from srt order pick fb_front fb_rear show ?thesis
    by (intro conjI allI impI) (simp_all only:, blast+)
qed

theorem optimizer_order_first_pick_and_fallback_witness:
  "example_env = selector_env (add_ranks (merge_inner example_front example_rear)) example_front example_rear \<and>
   [] \<notin> set (all_front_clips example_env) \<and> [] \<notin> set (all_rear_clips example_env) \<and>
   (0::nat) < 1 \<and> (1::nat) < length (all_center_sections example_env) \<and>
   center_sections_loop default_weights example_env (take 0 (all_center_sections example_env))
     initial_state = Inr initial_state \<and>
   first_minimum (candidate_pairs (combined_score default_weights) example_env initial_state
                    (all_center_sections example_env ! 0)) (''F1'', ''R1'', 2) \<and>
   all_center_sections example_env ! 0 < all_center_sections example_env ! 1 \<and>
   (\<exists>a. calculate_optimal_assignments default_weights example_env = Inr a \<and>
        a (all_center_sections example_env ! 0) = Some \<lparr>front_clip = ''F1'', rear_clip = ''R1''\<rparr>) \<and>
   scarce_env = selector_env (add_ranks (merge_inner scarce_front scarce_rear)) scarce_front scarce_rear \<and>
   all_front_clips scarce_env \<noteq> [] \<and> all_rear_clips scarce_env \<noteq> [] \<and>
   set (all_front_clips scarce_env) \<subseteq> used_front_clips scarce_state \<and>
   (\<exists>r. assign_center default_weights scarce_env 2 scarce_state =
          Inr (add_combo scarce_state 2 (all_front_clips scarce_env ! 0) r None))"
proof -
  have e0: "example_env = selector_env (add_ranks (merge_inner example_front example_rear))
                            example_front example_rear"
    by (rule example_env_def)
  have e1: "[] \<notin> set (all_front_clips example_env)" and e2: "[] \<notin> set (all_rear_clips example_env)"
    and e3: "(1::nat) < length (all_center_sections example_env)"
    by code_simp+
  have e4: "center_sections_loop default_weights example_env (take 0 (all_center_sections example_env))
     initial_state = Inr initial_state" by simp
  have cands: "candidate_pairs (combined_score default_weights) example_env initial_state
                    (all_center_sections example_env ! 0) =
      [(''F1'', ''R1'', 2), (''F1'', ''R2'', 5 / 2), (''F2'', ''R1'', 5 / 2),
       (''F2'', ''R2'', 3), (''F3'', ''R1'', 3), (''F3'', ''R2'', 7 / 2)]"
    by code_simp
  have e5: "first_minimum (candidate_pairs (combined_score default_weights) example_env
              initial_state (all_center_sections example_env ! 0)) (''F1'', ''R1'', 2)"
    unfolding cands first_minimum_def
    by (rule exI[of _ 0]) (simp add: All_less_Suc)
  have s0: "scarce_env = selector_env (add_ranks (merge_inner scarce_front scarce_rear))
                            scarce_front scarce_rear"
    by (rule scarce_env_def)
  have s1: "all_front_clips scarce_env \<noteq> []" and s2: "all_rear_clips scarce_env \<noteq> []"
    and s3: "set (all_front_clips scarce_env) \<subseteq> used_front_clips scarce_state"
    by code_simp+
  note ex = optimizer_order_first_pick_and_fallback[OF e0, of default_weights]
  from ex e1 e2 e3 e4 e5 have
    p1: "all_center_sections example_env ! 0 < all_center_sections example_env ! 1 \<and>
         (\<exists>a. calculate_optimal_assignments default_weights example_env = Inr a \<and>
           a (all_center_sections example_env ! 0) = Some \<lparr>front_clip = ''F1'', rear_clip = ''R1''\<rparr>)"
    by blast
  note sc = optimizer_order_first_pick_and_fallback[OF s0, of default_weights]
  from sc s1 s2 s3 have
    p2: "\<exists>r. assign_center default_weights scarce_env 2 scarce_state =
          Inr (add_combo scarce_state 2 (all_front_clips scarce_env ! 0) r None)"
    by blast
  from e0 e1 e2 e3 e4 e5 p1 s0 s1 s2 s3 p2 show ?thesis by simp
qed

section \<open>The weight check and repeated runs\<close>

lemma selector_run:
  fixes st :: "'s::linorder session"
  assumes res: "results_df st = Some results" and fr: "df_front_calc st = Some front"
    and re: "df_rear_calc st = Some rear"
    and gate: "\<not> weight_gate (total_weight typed)"
  shows "selector typed True st =
           (case calculate_optimal_assignments typed (selector_env results front rear) of
              Inl e \<Rightarrow> Inl e
            | Inr a \<Rightarrow> Inr (st\<lparr>corner_weights := Some typed, lineup_assignments := Some a\<rparr>))"
proof (cases "lineup_assignments st")
  case (Some a0)
  with res fr re gate show ?thesis
    by (simp add: selector_def Let_def split: sum.splits)
next
  case None
  show ?thesis
  proof (cases "calculate_optimal_assignments
                  (case corner_weights st of None \<Rightarrow> default_weights | Some cw \<Rightarrow> cw)
                  (selector_env results front rear)")
    case (Inl e)
    from calculate_error_independent[OF Inl, of typed] Inl None res fr re show ?thesis
      by (simp add: selector_def Let_def)
  next
    case (Inr a0)
    with None res fr re gate show ?thesis
      by (simp add: selector_def Let_def split: sum.splits)
  qed
qed

text \<open>
  C9. Two runs of the optimizer from the Calculate button with the same typed weights
  (accepted by the gate) on the same working set store the same assignment, whatever
  assignment and weights the two sessions held before: the stored assignment is the
  result of \<open>calculate_optimal_assignments\<close> on the weights and the working set alone, and
  that run starts from no entries and empty sets of used clips.
\<close>

theorem optimizer_rerun_deterministic:
  fixes st1 st2 :: "'s::linorder session"
  assumes "results_df st1 = Some results" and "results_df st2 = Some results"
    and "df_front_calc st1 = Some front" and "df_front_calc st2 = Some front"
    and "df_rear_calc st1 = Some rear" and "df_rear_calc st2 = Some rear"
    and gate: "\<not> weight_gate (total_weight typed)"
  shows "map_sum id lineup_assignments (selector typed True st1) =
           map_sum id lineup_assignments (selector typed True st2) \<and>
         map_sum id lineup_assignments (selector typed True st1) =
           map_sum id Some (calculate_optimal_assignments typed (selector_env results front rear)) \<and>
         run_optimizer typed (selector_env results front rear) =
           center_sections_loop typed (selector_env results front rear)
             (all_center_sections (selector_env results front rear))
             \<lparr>center_best_combos = [], used_front_clips = {}, used_rear_clips = {}\<rparr>"
proof -
  have "map_sum id lineup_assignments (selector typed True st) =
           map_sum id Some (calculate_optimal_assignments typed (selector_env results front rear))"
    if "results_df st = Some results" "df_front_calc st = Some front" "df_rear_calc st = Some rear"
    for st :: "'s session"
    unfolding selector_run[OF that gate]
    by (cases "calculate_optimal_assignments typed (selector_env results front rear)") simp_all
  from this[of st1] this[of st2] assms show ?thesis
    by (simp add: run_optimizer_def)
qed

theorem optimizer_rerun_deterministic_witness:
  "results_df gate_session = Some (add_ranks (merge_inner gate_front gate_rear)) \<and>
   results_df (gate_session\<lparr>corner_weights := None, lineup_assignments := None\<rparr>) =
     Some (add_ranks (merge_inner gate_front gate_rear)) \<and>
   df_front_calc gate_session = Some gate_front \<and>
   df_rear_calc gate_session = Some gate_rear \<and>
   \<not> weight_gate (total_weight default_weights) \<and>
   lineup_assignments gate_session \<noteq> None \<and>
   map_sum id lineup_assignments (selector default_weights True gate_session) =
     map_sum id lineup_assignments
       (selector default_weights True (gate_session\<lparr>corner_weights := None, lineup_assignments := None\<rparr>))"
proof -
  have h: "results_df gate_session = Some (add_ranks (merge_inner gate_front gate_rear))"
    "results_df (gate_session\<lparr>corner_weights := None, lineup_assignments := None\<rparr>) =
       Some (add_ranks (merge_inner gate_front gate_rear))"
    "df_front_calc gate_session = Some gate_front"
    "df_front_calc (gate_session\<lparr>corner_weights := None, lineup_assignments := None\<rparr>) = Some gate_front"
    "df_rear_calc gate_session = Some gate_rear"
    "df_rear_calc (gate_session\<lparr>corner_weights := None, lineup_assignments := None\<rparr>) = Some gate_rear"
    by (simp_all add: gate_session_def)
  have g: "\<not> weight_gate (total_weight default_weights)"
    by code_simp
  have n: "lineup_assignments gate_session \<noteq> None" by (simp add: gate_session_def)
  from optimizer_rerun_deterministic[OF h g] h g n show ?thesis by simp
qed

text \<open>
  C7 (amended). The test on the typed weights is the one the code computes: the four
  weights are added from left to right in double precision, and the run is refused when
  the rounded difference of that total from 100 is greater than 0.01 in absolute value.
  A refused press does nothing: the optimizer is not run, and the stored assignment and
  the stored weights stay as they were. Every other press runs the optimizer on the typed
  weights and stores them with the new assignment.
\<close>

theorem weight_sum_gate:
  fixes st :: "'s::linorder session"
  assumes prev: "lineup_assignments st = Some a"
    and frames: "df_front_calc st = Some front" "df_rear_calc st = Some rear"
  shows "(weight_gate (total_weight typed) \<longrightarrow>
            selector typed clicked st = selector typed False st \<and>
            (\<exists>st'. selector typed clicked st = Inr st' \<and> lineup_assignments st' = Some a \<and>
                   (corner_weights st \<noteq> None \<longrightarrow> st' = st))) \<and>
         (\<not> weight_gate (total_weight typed) \<longrightarrow>
            (\<forall>results. results_df st = Some results \<longrightarrow>
               selector typed True st =
                 (case calculate_optimal_assignments typed (selector_env results front rear) of
                    Inl e \<Rightarrow> Inl e
                  | Inr a' \<Rightarrow> Inr (st\<lparr>corner_weights := Some typed,
                                          lineup_assignments := Some a'\<rparr>))))"
proof (intro conjI impI allI)
  assume gate: "weight_gate (total_weight typed)"
  show "selector typed clicked st = selector typed False st"
    using gate by (simp add: selector_def Let_def split: option.splits sum.splits)
  show "\<exists>st'. selector typed clicked st = Inr st' \<and> lineup_assignments st' = Some a \<and>
                   (corner_weights st \<noteq> None \<longrightarrow> st' = st)"
  proof (cases "results_df st")
    case None
    with prev show ?thesis by (simp add: selector_def)
  next
    case (Some results)
    show ?thesis
    proof (cases "corner_weights st")
      case None
      with Some gate prev frames show ?thesis
        by (simp add: selector_def Let_def)
    next
      case (Some cw)
      then have "st\<lparr>corner_weights := Some cw, lineup_assignments := Some a\<rparr> = st"
        using prev by simp
      with Some \<open>results_df st = Some results\<close> gate prev frames show ?thesis
        by (simp add: selector_def Let_def)
    qed
  qed
next
  fix results
  assume "\<not> weight_gate (total_weight typed)" and "results_df st = Some results"
  with frames show "selector typed True st =
                 (case calculate_optimal_assignments typed (selector_env results front rear) of
                    Inl e \<Rightarrow> Inl e
                  | Inr a' \<Rightarrow> Inr (st\<lparr>corner_weights := Some typed,
                                          lineup_assignments := Some a'\<rparr>))"
    by (intro selector_run)
qed

theorem weight_sum_gate_witness:
  "lineup_assignments gate_session = Some [1 \<mapsto> \<lparr>front_clip = ''F2'', rear_clip = ''R1''\<rparr>] \<and>
   df_front_calc gate_session = Some gate_front \<and> df_rear_calc gate_session = Some gate_rear \<and>
   results_df gate_session = Some (add_ranks (merge_inner gate_front gate_rear)) \<and>
   corner_weights gate_session \<noteq> None \<and>
   weight_gate (total_weight short_typed) \<and>
   selector short_typed True gate_session = Inr gate_session \<and>
   weight_gate (total_weight boundary_typed) \<and>
   selector boundary_typed True gate_session = Inr gate_session \<and>
   \<not> weight_gate (total_weight gate_typed) \<and>
   selector gate_typed True gate_session =
     (case calculate_optimal_assignments gate_typed
             (selector_env (add_ranks (merge_inner gate_front gate_rear)) gate_front gate_rear) of
        Inl e \<Rightarrow> Inl e
      | Inr a' \<Rightarrow> Inr (gate_session\<lparr>corner_weights := Some gate_typed,
                                        lineup_assignments := Some a'\<rparr>))"
proof -
  have h: "lineup_assignments gate_session = Some [1 \<mapsto> \<lparr>front_clip = ''F2'', rear_clip = ''R1''\<rparr>]"
    "df_front_calc gate_session = Some gate_front" "df_rear_calc gate_session = Some gate_rear"
    by (simp_all add: gate_session_def)
  have r: "results_df gate_session = Some (add_ranks (merge_inner gate_front gate_rear))"
    by (simp add: gate_session_def)
  have w: "corner_weights gate_session \<noteq> None" by (simp add: gate_session_def)
  have g1: "weight_gate (total_weight short_typed)" by code_simp
  have g2: "weight_gate (total_weight boundary_typed)" by code_simp
  have g3: "\<not> weight_gate (total_weight gate_typed)" by code_simp
  from weight_sum_gate[OF h, of short_typed True] g1 w
  have s1: "selector short_typed True gate_session = Inr gate_session" by auto
  from weight_sum_gate[OF h, of boundary_typed True] g2 w
  have s2: "selector boundary_typed True gate_session = Inr gate_session" by auto
  from weight_sum_gate[OF h, of gate_typed True] g3 r
  have s3: "selector gate_typed True gate_session =
     (case calculate_optimal_assignments gate_typed
             (selector_env (add_ranks (merge_inner gate_front gate_rear)) gate_front gate_rear) of
        Inl e \<Rightarrow> Inl e
      | Inr a' \<Rightarrow> Inr (gate_session\<lparr>corner_weights := Some gate_typed,
                                        lineup_assignments := Some a'\<rparr>))" by blast
  from h r w g1 g2 g3 s1 s2 s3 show ?thesis by blast
qed

text \<open>
  C7 as stated fails: the typed weights 25.005, 25, 25 and 25 do not sum to 100, yet the
  test accepts them, the optimizer runs, and the stored assignment of center section 1
  changes from F2 to F1.
\<close>

theorem weight_sum_gate_counterexample:
  "total_weight gate_typed \<noteq> 100 \<and>
   lf_weight gate_typed + rf_weight gate_typed + lr_weight gate_typed + rr_weight gate_typed \<noteq> 100 \<and>
   lineup_entries (Inr gate_session) [1] =
     Inr (Some [Some \<lparr>front_clip = ''F2'', rear_clip = ''R1''\<rparr>]) \<and>
   lineup_entries (selector gate_typed True gate_session) [1] =
     Inr (Some [Some \<lparr>front_clip = ''F1'', rear_clip = ''R1''\<rparr>])"
  by code_simp

section \<open>The empty merge\<close>

lemma empty_join_session:
  assumes "merge_inner (multi_front_calc cfg df_front df_rear) (multi_rear_calc cfg df_front df_rear) = []"
  shows "calculate True cfg df df_front df_rear st =
           (Stopped, st\<lparr>df_front_calc := Some (multi_front_calc cfg df_front df_rear),
                         df_rear_calc := Some (multi_rear_calc cfg df_front df_rear)\<rparr>)"
  using assms by (simp add: calculate_def Let_def)

text \<open>
  C8. In dual-sheet mode an empty merge stops the calculation before anything is ranked
  and \<open>results_df\<close> stays the one of the earlier calculation, but the earlier results are
  not left intact: \<open>df_front_calc\<close> and \<open>df_rear_calc\<close> are stored before the merge is
  checked (lines 568--569). In a session that holds the results for the front clips F1,
  F2 and the rear clip R1, a calculation on sheets without a common center section stops,
  keeps \<open>results_df\<close> and leaves the frames of the new sheets, with the clips A and B,
  from which the result tabs and the Selector take their rows and ranks.
\<close>

theorem empty_join_overwrites_frames:
  "results_df gate_session = Some (add_ranks (merge_inner gate_front gate_rear)) \<and>
   merge_inner (multi_front_calc example_config example_sheet other_sheet)
               (multi_rear_calc example_config example_sheet other_sheet) = [] \<and>
   fst (calculate True example_config example_sheet example_sheet other_sheet gate_session) = Stopped \<and>
   results_df (snd (calculate True example_config example_sheet example_sheet other_sheet gate_session))
     = results_df gate_session \<and>
   map_option (map front_clip_col) (df_front_calc gate_session) = Some [''F1'', ''F2''] \<and>
   map_option (map front_clip_col)
     (df_front_calc (snd (calculate True example_config example_sheet example_sheet other_sheet
                            gate_session))) = Some [''A''] \<and>
   map_option (map rear_clip_col) (df_rear_calc gate_session) = Some [''R1''] \<and>
   map_option (map rear_clip_col)
     (df_rear_calc (snd (calculate True example_config example_sheet example_sheet other_sheet
                           gate_session))) = Some [''B'']"
proof -
  have m: "merge_inner (multi_front_calc example_config example_sheet other_sheet)
               (multi_rear_calc example_config example_sheet other_sheet) = []"
    by (simp add: merge_inner_empty_iff multi_front_calc_def multi_rear_calc_def
        example_sheet_def other_sheet_def multi_damper_length_def damper_length_def
        multi_lower_mount_def lower_mount_def multi_lca_center_z_def Let_def
        lca_center_x_def lca_center_y_def lca_center_z_def all_z_heights_def median_def
        example_config_def)
  have f: "map front_clip_col (multi_front_calc example_config example_sheet other_sheet) = [''A'']"
    by (simp add: multi_front_calc_def example_sheet_def other_sheet_def
        multi_damper_length_def damper_length_def
        multi_lower_mount_def lower_mount_def multi_lca_center_z_def Let_def
        lca_center_x_def lca_center_y_def lca_center_z_def all_z_heights_def median_def
        example_config_def)
  have r: "map rear_clip_col (multi_rear_calc example_config example_sheet other_sheet) = [''B'']"
    by (simp add: multi_rear_calc_def example_sheet_def other_sheet_def
        multi_damper_length_def damper_length_def
        multi_lower_mount_def lower_mount_def multi_lca_center_z_def Let_def
        lca_center_x_def lca_center_y_def lca_center_z_def all_z_heights_def median_def
        example_config_def)
  have g: "results_df gate_session = Some (add_ranks (merge_inner gate_front gate_rear))"
    "map_option (map front_clip_col) (df_front_calc gate_session) = Some [''F1'', ''F2'']"
    "map_option (map rear_clip_col) (df_rear_calc gate_session) = Some [''R1'']"
    by (simp_all add: gate_session_def gate_front_def gate_rear_def front_row_def rear_row_def)
  show ?thesis
    unfolding empty_join_session[OF m] by (simp add: m f r g)
qed

end
